theory Spec2Isabelle
  imports Complex_Main
begin

section \<open>Values, exceptions and the observable trace\<close>

text \<open>
  Python values that flow through \<^verbatim>\<open>notion_sync.py\<close> are JSON-shaped: \<open>None\<close>, booleans,
  numbers, strings, lists and dictionaries. A dictionary is an association list (the first
  binding of a key is the one that counts). A number is a rational: the script only ever tests
  a number for truth and passes it on.
\<close>

datatype json =
    JNull
  | JBool bool
  | JNum rat
  | JStr string
  | JArr "json list"
  | JObj "(string \<times> json) list"

type_synonym dict = "(string \<times> json) list"

text \<open>Python's truth value of an object, as used by \<^verbatim>\<open>if x\<close>, \<^verbatim>\<open>not x\<close> and \<^verbatim>\<open>bool(x)\<close>.\<close>

fun truthy :: "json \<Rightarrow> bool" where
  "truthy JNull = False"
| "truthy (JBool b) = b"
| "truthy (JNum n) = (n \<noteq> 0)"
| "truthy (JStr s) = (s \<noteq> [])"
| "truthy (JArr xs) = (xs \<noteq> [])"
| "truthy (JObj kvs) = (kvs \<noteq> [])"

text \<open>\<^verbatim>\<open>d.get(k, default)\<close>; \<^verbatim>\<open>d.get(k)\<close> is \<open>dict_get d k JNull\<close>.\<close>

definition dict_get :: "dict \<Rightarrow> string \<Rightarrow> json \<Rightarrow> json" where
  "dict_get d k dflt = (case map_of d k of None \<Rightarrow> dflt | Some v \<Rightarrow> v)"

text \<open>
  The exceptions the script can meet. \<open>RequestException\<close> stands for
  \<^verbatim>\<open>requests.RequestException\<close> and its subclasses, the only ones the retry helper catches;
  every constructor is an \<^verbatim>\<open>Exception\<close>, so \<^verbatim>\<open>except Exception\<close> catches them all.
\<close>

datatype exn =
    KeyError string
  | TypeError
  | AttributeError
  | ValueError_isoformat
  | JSONDecodeError
  | ValueError_unsupported_method
  | ValueError_sleep
  | ValueError_unknown_action json
  | RuntimeError string
  | RequestException string
  | OtherException string

fun is_RequestException :: "exn \<Rightarrow> bool" where
  "is_RequestException (RequestException _) = True"
| "is_RequestException _ = False"

record request =
  rq_method :: string
  rq_url :: string
  rq_headers :: "(string \<times> string) list"
  rq_json :: "json option"
  rq_params :: "json option"
  rq_timeout :: nat

text \<open>A response: \<open>r.ok\<close>, \<open>r.status_code\<close>, \<open>r.text\<close>, and what \<open>r.json()\<close> does.\<close>

record response =
  ok :: bool
  status_code :: int
  text_of :: string
  json_of :: "exn + json"

datatype level = INFO | WARNING | ERROR

text \<open>One constructor per logging call of the script, holding the interpolated values.\<close>

datatype msg =
    HTTP_error int string string
  | Request_exception exn
  | Creating_job_application json json
  | Adding_network_contact json json
  | Adding_interview_record json json
  | Creating_followup_task json
  | CSV_not_found string
  | Failed_to_insert_row dict exn
  | Prefilled nat string
  | No_threads_file
  | No_threads_to_sync
  | Invalid_last_updated json exn
  | Thread_eligible json json
  | Failed_to_parse_content json exn
  | No_valid_command json
  | Failed_to_process_thread json exn
  | Sync_completed
  | No_threads_synced

text \<open>
  Everything the script does to the outside is an event of a trace, oldest first: a request
  handed to \<^verbatim>\<open>requests\<close>, a log record, a \<^verbatim>\<open>time.sleep\<close>. \<open>Call i cmd\<close> marks the entry of
  \<^verbatim>\<open>process_thread_command(cmd)\<close> for the queue entry at position \<open>i\<close>.
\<close>

datatype event =
    Req request
  | Log level msg
  | Sleep rat
  | Call nat json

type_synonym world = "event list"

fun is_Req :: "event \<Rightarrow> bool" where
  "is_Req (Req _) = True"
| "is_Req _ = False"

definition nreq :: "world \<Rightarrow> nat" where
  "nreq w = length (filter is_Req w)"

text \<open>A zone-aware or a naive \<^verbatim>\<open>datetime\<close>, in microseconds.\<close>

datatype pydt = Aware int | Naive int

text \<open>
  What the script takes from outside: the token, the network (the answer to the \<open>n\<close>-th request
  sent, counted from \<open>0\<close>), the clock read by \<^verbatim>\<open>datetime.now(timezone.utc).isoformat()\<close> (by the
  length of the trace so far), and the library parsers \<^verbatim>\<open>datetime.fromisoformat\<close> and
  \<^verbatim>\<open>json.loads\<close> (\<open>None\<close> where they raise).
\<close>

record env =
  NOTION_TOKEN :: string
  send :: "nat \<Rightarrow> request \<Rightarrow> exn + response"
  utcnow_iso :: "nat \<Rightarrow> string"
  fromisoformat :: "string \<Rightarrow> pydt option"
  json_loads :: "string \<Rightarrow> json option"

section \<open>String helpers\<close>

text \<open>
  A string is a list of code points below 256 (Latin-1); a Python string with a code point
  beyond that is outside this development. \<^verbatim>\<open>str.lower()\<close> on such a string: the letters
  \<open>A\<close> to \<open>Z\<close> and the capital letters of Latin-1 (192 to 222, the multiplication sign 215
  apart) move up by 32, every other character is kept.
\<close>

definition lower_char :: "char \<Rightarrow> char" where
  "lower_char c =
     (let n = (of_char c :: nat) in
      if (65 \<le> n \<and> n \<le> 90) \<or> (192 \<le> n \<and> n \<le> 222 \<and> n \<noteq> 215) then char_of (n + 32) else c)"

definition lower :: "string \<Rightarrow> string" where
  "lower s = map lower_char s"

text \<open>\<^verbatim>\<open>s.replace("Z", "+00:00")\<close>.\<close>

definition replace_Z :: "string \<Rightarrow> string" where
  "replace_Z s = concat (map (\<lambda>c. if c = CHR ''Z'' then ''+00:00'' else [c]) s)"

text \<open>
  The characters that \<^verbatim>\<open>str.strip()\<close> removes, those for which \<^verbatim>\<open>str.isspace\<close> holds: below
  256 they are 9 to 13, 28 to 32, 133 (next line) and 160 (no-break space). Then the truth
  value of \<^verbatim>\<open>s.strip()\<close>: some character of \<open>s\<close> is no space.
\<close>

definition isspace :: "char \<Rightarrow> bool" where
  "isspace c =
     (let n = (of_char c :: nat)
      in (9 \<le> n \<and> n \<le> 13) \<or> (28 \<le> n \<and> n \<le> 32) \<or> n = 133 \<or> n = 160)"

definition strip_nonempty :: "string \<Rightarrow> bool" where
  "strip_nonempty s = list_ex (\<lambda>c. \<not> isspace c) s"

text \<open>\<^verbatim>\<open>str(n)\<close> for an integer, as an f-string renders it.\<close>

fun str_nat :: "nat \<Rightarrow> string" where
  "str_nat n = (if n < 10 then [char_of (48 + n)]
                else str_nat (n div 10) @ [char_of (48 + n mod 10)])"

declare str_nat.simps [simp del]

definition str_int :: "int \<Rightarrow> string" where
  "str_int i = (if i < 0 then CHR ''-'' # str_nat (nat (- i)) else str_nat (nat i))"

section \<open>Configuration\<close>

definition DB_JOB_APPS :: string where "DB_JOB_APPS = ''2c356c757b0780968c5cc58ea0ef1b30''"
definition DB_NETWORKING :: string where "DB_NETWORKING = ''2c356c757b0780f19699c11e1f5e7db1''"
definition DB_INTERVIEWS :: string where "DB_INTERVIEWS = ''2c356c757b07803f91d5f1836877fc7b''"
definition DB_FOLLOWUPS :: string where "DB_FOLLOWUPS = ''2c456c757b07807b82aefb0c868a58d4''"

definition NOTION_API :: string where "NOTION_API = ''https://api.notion.com/v1''"
definition NOTION_VERSION :: string where "NOTION_VERSION = ''2022-06-28''"

definition HEADERS :: "env \<Rightarrow> (string \<times> string) list" where
  "HEADERS E =
     [(''Authorization'', ''Bearer '' @ NOTION_TOKEN E),
      (''Notion-Version'', NOTION_VERSION),
      (''Content-Type'', ''application/json'')]"

section \<open>Transport: \<^verbatim>\<open>http_request_with_retries\<close>\<close>

text \<open>How one turn of a loop body ends: it returns from the function, it raises, or the loop goes on.\<close>

datatype 'a flow = Return 'a | Raise exn | Next

text \<open>
  The call \<^verbatim>\<open>requests.post/patch/get(url, headers=..., json=..., params=..., timeout=30)\<close>
  chosen by the lower-cased method (\<^verbatim>\<open>requests.get\<close> is not given the payload), and the
  \<^verbatim>\<open>try\<close> statement of one attempt. An unsupported method raises \<open>ValueError\<close>, which the
  \<^verbatim>\<open>except requests.RequestException\<close> clause does not catch, as it does not catch any other
  exception that is no \<open>RequestException\<close>. A response that is \<open>ok\<close> ends the function with
  \<open>r.json()\<close>, which may raise too.
\<close>

definition request_of ::
  "string \<Rightarrow> string \<Rightarrow> (string \<times> string) list \<Rightarrow> json option \<Rightarrow> json option \<Rightarrow> request" where
  "request_of m url headers json_payload params =
     \<lparr>rq_method = m, rq_url = url, rq_headers = headers,
      rq_json = (if m = ''get'' then None else json_payload),
      rq_params = params, rq_timeout = 30\<rparr>"

definition attempt_once ::
  "env \<Rightarrow> string \<Rightarrow> string \<Rightarrow> (string \<times> string) list \<Rightarrow> json option \<Rightarrow> json option
     \<Rightarrow> world \<Rightarrow> json flow \<times> world" where
  "attempt_once E method url headers json_payload params w =
     (let m = lower method in
      if m \<noteq> ''post'' \<and> m \<noteq> ''patch'' \<and> m \<noteq> ''get'' then (Raise ValueError_unsupported_method, w)
      else
        let q = request_of m url headers json_payload params;
            w1 = w @ [Req q]
        in case send E (nreq w) q of
             Inl e \<Rightarrow>
               if is_RequestException e then (Next, w1 @ [Log WARNING (Request_exception e)])
               else (Raise e, w1)
           | Inr r \<Rightarrow>
               if ok r then
                 (case json_of r of
                    Inr v \<Rightarrow> (Return v, w1)
                  | Inl e \<Rightarrow>
                      if is_RequestException e
                      then (Next, w1 @ [Log WARNING (Request_exception e)])
                      else (Raise e, w1))
               else (Next, w1 @ [Log WARNING (HTTP_error (status_code r) url (text_of r))]))"

text \<open>
  The \<^verbatim>\<open>for attempt in range(1, retries+1)\<close> loop, over the list of attempt numbers. After a
  failed attempt comes \<^verbatim>\<open>time.sleep(backoff * attempt)\<close>, outside the \<^verbatim>\<open>try\<close>: for a negative
  length \<^verbatim>\<open>time.sleep\<close> raises \<open>ValueError\<close> and the function ends there. The product is taken
  exactly. The code multiplies floats, which gives the same number when \<open>backoff\<close> is a small
  integer, as the default \<open>1.0\<close> is, the only value the script ever passes; the statements
  below on the lengths slept are made at that default.
\<close>

fun attempts_loop ::
  "env \<Rightarrow> string \<Rightarrow> string \<Rightarrow> (string \<times> string) list \<Rightarrow> json option \<Rightarrow> json option
     \<Rightarrow> rat \<Rightarrow> int list \<Rightarrow> world \<Rightarrow> (exn + json) option \<times> world" where
  "attempts_loop E method url headers json_payload params backoff [] w = (None, w)"
| "attempts_loop E method url headers json_payload params backoff (attempt # rest) w =
     (case attempt_once E method url headers json_payload params w of
        (Return v, w1) \<Rightarrow> (Some (Inr v), w1)
      | (Raise e, w1) \<Rightarrow> (Some (Inl e), w1)
      | (Next, w1) \<Rightarrow>
          if backoff * of_int attempt < 0 then (Some (Inl ValueError_sleep), w1)
          else attempts_loop E method url headers json_payload params backoff rest
                 (w1 @ [Sleep (backoff * of_int attempt)]))"

definition http_request_with_retries ::
  "env \<Rightarrow> string \<Rightarrow> string \<Rightarrow> (string \<times> string) list \<Rightarrow> json option \<Rightarrow> json option
     \<Rightarrow> int \<Rightarrow> rat \<Rightarrow> world \<Rightarrow> (exn + json) \<times> world" where
  "http_request_with_retries E method url headers json_payload params retries backoff w =
     (case attempts_loop E method url headers json_payload params backoff [1..retries] w of
        (Some r, w') \<Rightarrow> (r, w')
      | (None, w') \<Rightarrow>
          (Inl (RuntimeError (''Failed HTTP request to '' @ url @ '' after ''
                               @ str_int retries @ '' attempts'')), w'))"

definition notion_post :: "env \<Rightarrow> string \<Rightarrow> json \<Rightarrow> world \<Rightarrow> (exn + json) \<times> world" where
  "notion_post E path payload w =
     http_request_with_retries E ''post'' (NOTION_API @ path) (HEADERS E) (Some payload) None 3 1 w"

definition notion_patch :: "env \<Rightarrow> string \<Rightarrow> json \<Rightarrow> world \<Rightarrow> (exn + json) \<times> world" where
  "notion_patch E path payload w =
     http_request_with_retries E ''patch'' (NOTION_API @ path) (HEADERS E) (Some payload) None 3 1 w"

definition notion_get :: "env \<Rightarrow> string \<Rightarrow> json option \<Rightarrow> world \<Rightarrow> (exn + json) \<times> world" where
  "notion_get E path params w =
     http_request_with_retries E ''get'' (NOTION_API @ path) (HEADERS E) None params 3 1 w"

section \<open>Record builders\<close>

definition title_prop :: "json \<Rightarrow> json" where
  "title_prop text = JObj [(''title'', JArr [JObj [(''text'', JObj [(''content'', text)])]])]"

definition rich_text_prop :: "json \<Rightarrow> json" where
  "rich_text_prop text = JObj [(''rich_text'', JArr [JObj [(''text'', JObj [(''content'', text)])]])]"

definition select_prop :: "json \<Rightarrow> json" where
  "select_prop name = JObj [(''select'', JObj [(''name'', name)])]"

definition date_prop :: "json \<Rightarrow> json" where
  "date_prop iso_s =
     (if truthy iso_s then JObj [(''date'', JObj [(''start'', iso_s)])]
      else JObj [(''date'', JNull)])"

definition url_prop :: "json \<Rightarrow> json" where
  "url_prop url = (if truthy url then JObj [(''url'', url)] else JObj [])"

definition checkbox_prop :: "json \<Rightarrow> json" where
  "checkbox_prop v = JObj [(''checkbox'', JBool (truthy v))]"

definition relation_prop :: "json \<Rightarrow> json" where
  "relation_prop page_id =
     (if truthy page_id then JObj [(''relation'', JArr [JObj [(''id'', page_id)]])] else JObj [])"

section \<open>Core operations\<close>

definition create_job_application ::
  "env \<Rightarrow> json \<Rightarrow> json \<Rightarrow> json \<Rightarrow> json \<Rightarrow> json \<Rightarrow> json \<Rightarrow> json \<Rightarrow> world \<Rightarrow> (exn + json) \<times> world" where
  "create_job_application E company role jd_summary jd_link location salary_range priority w =
     (let w1 = w @ [Log INFO (Creating_job_application company role)];
          now_iso = JStr (utcnow_iso E (length w1));
          properties = JObj
            [(''Company'', title_prop company),
             (''Role'', rich_text_prop role),
             (''Date Applied'', date_prop now_iso),
             (''Status'', select_prop (JStr ''Applied'')),
             (''JD Summary'', rich_text_prop jd_summary),
             (''JD Link'', url_prop jd_link),
             (''Location'', rich_text_prop location),
             (''Salary Range'', rich_text_prop salary_range),
             (''Priority'', select_prop priority)];
          payload = JObj [(''parent'', JObj [(''database_id'', JStr DB_JOB_APPS)]),
                          (''properties'', properties)]
      in notion_post E ''/pages'' payload w1)"

definition add_network_contact ::
  "env \<Rightarrow> json \<Rightarrow> json \<Rightarrow> json \<Rightarrow> json \<Rightarrow> json \<Rightarrow> json \<Rightarrow> world \<Rightarrow> (exn + json) \<times> world" where
  "add_network_contact E name company role linkedin email status w =
     (let w1 = w @ [Log INFO (Adding_network_contact name company)];
          properties = JObj
            [(''Name'', title_prop name),
             (''Company'', rich_text_prop company),
             (''Role'', rich_text_prop role),
             (''LinkedIn'', url_prop linkedin),
             (''Email'', if truthy email then JObj [(''email'', email)] else JObj []),
             (''Status'', select_prop status),
             (''Last Contacted'', date_prop JNull)];
          payload = JObj [(''parent'', JObj [(''database_id'', JStr DB_NETWORKING)]),
                          (''properties'', properties)]
      in notion_post E ''/pages'' payload w1)"

definition add_interview ::
  "env \<Rightarrow> json \<Rightarrow> json \<Rightarrow> json \<Rightarrow> json \<Rightarrow> json \<Rightarrow> json \<Rightarrow> world \<Rightarrow> (exn + json) \<times> world" where
  "add_interview E application_page_id stage interviewer date_iso notes outcome w =
     (let w1 = w @ [Log INFO (Adding_interview_record application_page_id stage)];
          props = JObj
            [(''Application'', relation_prop application_page_id),
             (''Stage'', select_prop stage),
             (''Interviewer'', rich_text_prop interviewer),
             (''Date'', date_prop date_iso),
             (''Notes'', rich_text_prop notes),
             (''Outcome'', select_prop outcome)];
          payload = JObj [(''parent'', JObj [(''database_id'', JStr DB_INTERVIEWS)]),
                          (''properties'', props)]
      in notion_post E ''/pages'' payload w1)"

definition add_followup ::
  "env \<Rightarrow> json \<Rightarrow> json \<Rightarrow> json \<Rightarrow> json \<Rightarrow> json \<Rightarrow> world \<Rightarrow> (exn + json) \<times> world" where
  "add_followup E task related_application_page_id due_date_iso completed notes w =
     (let w1 = w @ [Log INFO (Creating_followup_task task)];
          props = JObj
            [(''Task'', title_prop task),
             (''Related Application'',
                if truthy related_application_page_id
                then relation_prop related_application_page_id else JObj []),
             (''Due Date'', if truthy due_date_iso then date_prop due_date_iso else JObj []),
             (''Completed'', checkbox_prop completed),
             (''Notes'', rich_text_prop notes)];
          payload = JObj [(''parent'', JObj [(''database_id'', JStr DB_FOLLOWUPS)]),
                          (''properties'', props)]
      in notion_post E ''/pages'' payload w1)"

section \<open>Bulk import: \<^verbatim>\<open>prefill_from_csv\<close>\<close>

text \<open>
  A queue file holds what \<^verbatim>\<open>json.load\<close> yields for it, by its documented format an array of
  objects. A CSV file holds what \<^verbatim>\<open>csv.DictReader\<close> yields for it: one dictionary per row,
  keyed by the header, with \<open>JNull\<close> (Python's \<open>None\<close>) for every column that a short row
  has no field for; and the exception, if any, that reading raises once these rows have been
  yielded (a byte that does not decode, a field over the size limit). \<open>None\<close> is a path at
  which no file exists. Paths are compared as strings, so two spellings of one path are two
  files here.
\<close>

type_synonym files = "string \<Rightarrow> dict list option"

type_synonym csv_files = "string \<Rightarrow> (dict list \<times> exn option) option"

text \<open>
  The body of the \<^verbatim>\<open>try\<close> of one row, up to \<^verbatim>\<open>count += 1\<close>. For follow-ups
  \<^verbatim>\<open>row.get("Completed","False").lower()\<close> raises when the value is not a string, before the
  operation is called. A \<open>db_type\<close> that matches no branch does nothing and succeeds.
\<close>

definition prefill_row :: "env \<Rightarrow> string \<Rightarrow> dict \<Rightarrow> world \<Rightarrow> (exn + unit) \<times> world" where
  "prefill_row E db_type row w =
     (if db_type = ''applications'' then
        (case create_job_application E
                (dict_get row ''Company'' (JStr ''''))
                (dict_get row ''Role'' (JStr ''''))
                (dict_get row ''JD Summary'' (JStr ''''))
                (dict_get row ''JD Link'' (JStr ''''))
                (dict_get row ''Location'' (JStr ''''))
                (dict_get row ''Salary Range'' (JStr ''''))
                (dict_get row ''Priority'' (JStr ''Medium'')) w of
           (Inl e, w') \<Rightarrow> (Inl e, w') | (Inr _, w') \<Rightarrow> (Inr (), w'))
      else if db_type = ''networking'' then
        (case add_network_contact E
                (dict_get row ''Name'' (JStr ''''))
                (dict_get row ''Company'' (JStr ''''))
                (dict_get row ''Role'' (JStr ''''))
                (dict_get row ''LinkedIn'' (JStr ''''))
                (dict_get row ''Email'' (JStr ''''))
                (dict_get row ''Status'' (JStr ''Cold'')) w of
           (Inl e, w') \<Rightarrow> (Inl e, w') | (Inr _, w') \<Rightarrow> (Inr (), w'))
      else if db_type = ''interviews'' then
        (case add_interview E
                (dict_get row ''Application'' (JStr ''''))
                (dict_get row ''Stage'' (JStr ''''))
                (dict_get row ''Interviewer'' (JStr ''''))
                (dict_get row ''Date'' (JStr ''''))
                (dict_get row ''Notes'' (JStr ''''))
                (dict_get row ''Outcome'' (JStr ''Pending'')) w of
           (Inl e, w') \<Rightarrow> (Inl e, w') | (Inr _, w') \<Rightarrow> (Inr (), w'))
      else if db_type = ''followups'' then
        (case dict_get row ''Completed'' (JStr ''False'') of
           JStr c \<Rightarrow>
             (case add_followup E
                     (dict_get row ''Task'' (JStr ''''))
                     (dict_get row ''Related Application'' (JStr ''''))
                     (dict_get row ''Due Date'' (JStr ''''))
                     (JBool (lower c = ''true''))
                     (dict_get row ''Notes'' (JStr '''')) w of
                (Inl e, w') \<Rightarrow> (Inl e, w') | (Inr _, w') \<Rightarrow> (Inr (), w'))
         | _ \<Rightarrow> (Inl AttributeError, w))
      else (Inr (), w))"

text \<open>The \<^verbatim>\<open>for row in reader\<close> loop with its counter.\<close>

fun prefill_loop :: "env \<Rightarrow> string \<Rightarrow> dict list \<Rightarrow> nat \<Rightarrow> world \<Rightarrow> nat \<times> world" where
  "prefill_loop E db_type [] count w = (count, w)"
| "prefill_loop E db_type (row # rows) count w =
     (case prefill_row E db_type row w of
        (Inr _, w') \<Rightarrow> prefill_loop E db_type rows (count + 1) w'
      | (Inl e, w') \<Rightarrow>
          prefill_loop E db_type rows count (w' @ [Log ERROR (Failed_to_insert_row row e)]))"

text \<open>
  \<^verbatim>\<open>prefill_from_csv(csv_path, db_type)\<close>. An exception of the reader is raised by the
  \<^verbatim>\<open>for\<close> statement itself, outside the \<^verbatim>\<open>try\<close> of the rows: it ends the function after the
  rows read so far, and no count is logged.
\<close>

definition prefill_from_csv ::
  "env \<Rightarrow> csv_files \<Rightarrow> string \<Rightarrow> string \<Rightarrow> world \<Rightarrow> (exn + unit) \<times> world" where
  "prefill_from_csv E fs csv_path db_type w =
     (case fs csv_path of
        None \<Rightarrow> (Inr (), w @ [Log ERROR (CSV_not_found csv_path)])
      | Some (rows, reader_error) \<Rightarrow>
          (case prefill_loop E db_type rows 0 w of
             (count, w') \<Rightarrow>
               (case reader_error of
                  Some e \<Rightarrow> (Inl e, w')
                | None \<Rightarrow> (Inr (), w' @ [Log INFO (Prefilled count db_type)]))))"

section \<open>Thread-based sync\<close>

definition default_threads_path :: string where
  "default_threads_path = ''project_threads.json''"

definition load_project_threads :: "files \<Rightarrow> string \<Rightarrow> world \<Rightarrow> dict list \<times> world" where
  "load_project_threads fs path w =
     (case fs path of
        None \<Rightarrow> ([], w @ [Log INFO No_threads_file])
      | Some data \<Rightarrow> (data, w))"

definition write_project_threads :: "dict list \<Rightarrow> string \<Rightarrow> files \<Rightarrow> files" where
  "write_project_threads data path fs = fs(path \<mapsto> data)"

definition process_thread_command :: "env \<Rightarrow> json \<Rightarrow> world \<Rightarrow> (exn + json) \<times> world" where
  "process_thread_command E cmd w =
     (case cmd of
        JObj d \<Rightarrow>
          (let action = dict_get d ''action'' JNull in
           if action = JStr ''create_application'' then
             create_job_application E
               (dict_get d ''company'' (JStr ''''))
               (dict_get d ''role'' (JStr ''''))
               (dict_get d ''jd_summary'' (JStr ''''))
               (dict_get d ''jd_link'' (JStr ''''))
               (dict_get d ''location'' (JStr ''''))
               (dict_get d ''salary_range'' (JStr ''''))
               (dict_get d ''priority'' (JStr ''Medium'')) w
           else if action = JStr ''add_followup'' then
             add_followup E
               (dict_get d ''task'' (JStr ''Follow up''))
               (dict_get d ''related_application_page_id'' JNull)
               (dict_get d ''due_date'' JNull)
               (JBool False)
               (dict_get d ''notes'' (JStr '''')) w
           else if action = JStr ''add_network_contact'' then
             add_network_contact E
               (dict_get d ''name'' (JStr ''''))
               (dict_get d ''company'' (JStr ''''))
               (dict_get d ''role'' (JStr ''''))
               (dict_get d ''linkedin'' (JStr ''''))
               (dict_get d ''email'' (JStr ''''))
               (dict_get d ''status'' (JStr ''Cold'')) w
           else (Inl (ValueError_unknown_action action), w))
      | _ \<Rightarrow> (Inl AttributeError, w))"

text \<open>\<^verbatim>\<open>timedelta(hours=2)\<close> in microseconds.\<close>

definition two_hours :: int where
  "two_hours = 7200000000"

text \<open>\<^verbatim>\<open>t["synced"] = True\<close> and the like: the key keeps its place, a new key goes last.\<close>

fun dict_set :: "dict \<Rightarrow> string \<Rightarrow> json \<Rightarrow> dict" where
  "dict_set [] k v = [(k, v)]"
| "dict_set ((k', v') # d) k v = (if k' = k then (k, v) # d else (k', v') # dict_set d k v)"

text \<open>
  \<^verbatim>\<open>datetime.fromisoformat(t["last_updated"].replace("Z", "+00:00"))\<close>: a missing key, a value
  that is no string and a string that is no ISO date each raise.
\<close>

definition last_updated_of :: "env \<Rightarrow> dict \<Rightarrow> exn + pydt" where
  "last_updated_of E t =
     (case map_of t ''last_updated'' of
        None \<Rightarrow> Inl (KeyError ''last_updated'')
      | Some (JStr s) \<Rightarrow>
          (case fromisoformat E (replace_Z s) of
             None \<Rightarrow> Inl ValueError_isoformat
           | Some d \<Rightarrow> Inr d)
      | Some _ \<Rightarrow> Inl AttributeError)"

text \<open>
  \<^verbatim>\<open>cmd = json.loads(content) if isinstance(content, str) and content.strip() else {}\<close> for
  \<^verbatim>\<open>content = t.get("content", "")\<close>; \<open>None\<close> when \<^verbatim>\<open>json.loads\<close> raises.
\<close>

definition parse_content :: "env \<Rightarrow> dict \<Rightarrow> json option" where
  "parse_content E t =
     (case dict_get t ''content'' (JStr '''') of
        JStr s \<Rightarrow> if strip_nonempty s then json_loads E s else Some (JObj [])
      | _ \<Rightarrow> Some (JObj []))"

text \<open>
  The body of \<^verbatim>\<open>for t in threads\<close> for the entry \<open>t\<close> at position \<open>i\<close>. The result is \<open>Inl e\<close>
  when \<open>e\<close> leaves the loop uncaught (\<^verbatim>\<open>now - last_updated\<close> on a naive datetime,
  \<^verbatim>\<open>t['thread_id']\<close> on a missing key), otherwise \<open>Inr b\<close> with \<open>b\<close> telling whether this turn
  set \<^verbatim>\<open>any_synced\<close>; with it come the entry as the turn leaves it and the trace.
\<close>

definition sync_thread :: "env \<Rightarrow> int \<Rightarrow> nat \<Rightarrow> dict \<Rightarrow> world \<Rightarrow> (exn + bool) \<times> dict \<times> world" where
  "sync_thread E now i t w =
     (case last_updated_of E t of
        Inl e \<Rightarrow>
          (Inr False, t, w @ [Log WARNING (Invalid_last_updated (dict_get t ''thread_id'' JNull) e)])
      | Inr last_updated \<Rightarrow>
          (let synced = dict_get t ''synced'' (JBool False) in
           if truthy synced then (Inr False, t, w)
           else
             (case last_updated of
                Naive _ \<Rightarrow> (Inl TypeError, t, w)
              | Aware lu \<Rightarrow>
                  if now - lu \<ge> two_hours then
                    (case map_of t ''thread_id'' of
                       None \<Rightarrow> (Inl (KeyError ''thread_id''), t, w)
                     | Some tid \<Rightarrow>
                         (let w1 = w @ [Log INFO (Thread_eligible tid
                                                    (dict_get t ''last_updated'' JNull))]
                          in case parse_content E t of
                               None \<Rightarrow>
                                 (Inr False, t,
                                  w1 @ [Log ERROR (Failed_to_parse_content tid JSONDecodeError)])
                             | Some cmd \<Rightarrow>
                                 if truthy cmd then
                                   (case process_thread_command E cmd (w1 @ [Call i cmd]) of
                                      (Inr _, w2) \<Rightarrow>
                                        (Inr True, dict_set t ''synced'' (JBool True), w2)
                                    | (Inl e, w2) \<Rightarrow>
                                        (Inr False, t,
                                         w2 @ [Log ERROR (Failed_to_process_thread tid e)]))
                                 else (Inr False, t, w1 @ [Log INFO (No_valid_command tid)])))
                  else (Inr False, t, w))))"

text \<open>
  The loop over the queue. It yields the uncaught exception, if any, the list as the loop
  leaves it in memory, \<^verbatim>\<open>any_synced\<close> and the trace.
\<close>

fun sync_loop ::
  "env \<Rightarrow> int \<Rightarrow> nat \<Rightarrow> dict list \<Rightarrow> bool \<Rightarrow> world \<Rightarrow> exn option \<times> dict list \<times> bool \<times> world" where
  "sync_loop E now i [] any_synced w = (None, [], any_synced, w)"
| "sync_loop E now i (t # ts) any_synced w =
     (case sync_thread E now i t w of
        (Inl e, t', w') \<Rightarrow> (Some e, t' # ts, any_synced, w')
      | (Inr b, t', w') \<Rightarrow>
          (case sync_loop E now (Suc i) ts (any_synced \<or> b) w' of
             (r, ts', any', w'') \<Rightarrow> (r, t' # ts', any', w'')))"

text \<open>
  \<^verbatim>\<open>run_sync(project_threads_path)\<close> at clock reading \<open>now\<close>. The list is read from
  \<open>project_threads_path\<close>; \<^verbatim>\<open>write_project_threads(threads)\<close> is called without a path, so the
  list is written to that function's default path.
\<close>

definition run_sync :: "env \<Rightarrow> int \<Rightarrow> files \<Rightarrow> string \<Rightarrow> world \<Rightarrow> (exn + unit) \<times> files \<times> world" where
  "run_sync E now fs project_threads_path w =
     (case load_project_threads fs project_threads_path w of
        (threads, w0) \<Rightarrow>
          if threads = [] then (Inr (), fs, w0 @ [Log INFO No_threads_to_sync])
          else
            (case sync_loop E now 0 threads False w0 of
               (Some e, threads', any_synced, w') \<Rightarrow> (Inl e, fs, w')
             | (None, threads', any_synced, w') \<Rightarrow>
                 if any_synced
                 then (Inr (), write_project_threads threads' default_threads_path fs,
                       w' @ [Log INFO Sync_completed])
                 else (Inr (), fs, w' @ [Log INFO No_threads_synced])))"

section \<open>Notions used in the statements\<close>

text \<open>An attempt fails: a transport-level exception, or a response that is not \<open>ok\<close>.\<close>

fun fails :: "exn + response \<Rightarrow> bool" where
  "fails (Inl e) = is_RequestException e"
| "fails (Inr r) = (\<not> ok r)"

text \<open>The requests of a trace, in order, and the commands dispatched for position \<open>i\<close>.\<close>

fun requests_of :: "world \<Rightarrow> request list" where
  "requests_of [] = []"
| "requests_of (Req q # w) = q # requests_of w"
| "requests_of (_ # w) = requests_of w"

fun calls_at :: "nat \<Rightarrow> world \<Rightarrow> json list" where
  "calls_at i [] = []"
| "calls_at i (Call j cmd # w) = (if j = i then cmd # calls_at i w else calls_at i w)"
| "calls_at i (_ # w) = calls_at i w"

text \<open>What a function added to the trace \<open>w\<close> it started from, given the trace it left.\<close>

definition added :: "world \<Rightarrow> world \<Rightarrow> world" where
  "added w w' = drop (length w) w'"

text \<open>The \<open>parent\<close> of a request's JSON payload, and one of its \<open>properties\<close>.\<close>

definition payload_parent :: "request \<Rightarrow> json option" where
  "payload_parent q = (case rq_json q of Some (JObj d) \<Rightarrow> map_of d ''parent'' | _ \<Rightarrow> None)"

definition payload_property :: "request \<Rightarrow> string \<Rightarrow> json option" where
  "payload_property q name =
     (case rq_json q of
        Some (JObj d) \<Rightarrow>
          (case map_of d ''properties'' of Some (JObj ps) \<Rightarrow> map_of ps name | _ \<Rightarrow> None)
      | _ \<Rightarrow> None)"

text \<open>
  The test of line 317 on an entry whose date parsed to a zone-aware datetime: not synced, and
  last updated two hours ago or more.
\<close>

definition due :: "env \<Rightarrow> int \<Rightarrow> dict \<Rightarrow> bool" where
  "due E now t =
     (case last_updated_of E t of
        Inr (Aware lu) \<Rightarrow> \<not> truthy (dict_get t ''synced'' (JBool False)) \<and> two_hours \<le> now - lu
      | _ \<Rightarrow> False)"

text \<open>The command that a turn of the loop hands to \<^verbatim>\<open>process_thread_command\<close>, if it hands one.\<close>

definition dispatched_command :: "env \<Rightarrow> int \<Rightarrow> dict \<Rightarrow> json option" where
  "dispatched_command E now t =
     (if due E now t \<and> map_of t ''thread_id'' \<noteq> None then
        (case parse_content E t of
           Some cmd \<Rightarrow> if truthy cmd then Some cmd else None
         | None \<Rightarrow> None)
      else None)"

text \<open>
  The entries at which the loop raises an exception that nothing catches. Line 317 subtracts
  the date from the zone-aware \<open>now\<close> when the entry is not synced, which raises \<open>TypeError\<close>
  for a date without a zone; line 318 reads \<^verbatim>\<open>t['thread_id']\<close> of an entry that passed the
  test, which raises \<open>KeyError\<close> when the key is missing.
\<close>

definition aborts_pass :: "env \<Rightarrow> int \<Rightarrow> dict \<Rightarrow> bool" where
  "aborts_pass E now t =
     (case last_updated_of E t of
        Inl _ \<Rightarrow> False
      | Inr d \<Rightarrow>
          \<not> truthy (dict_get t ''synced'' (JBool False)) \<and>
          (case d of
             Naive _ \<Rightarrow> True
           | Aware lu \<Rightarrow> two_hours \<le> now - lu \<and> map_of t ''thread_id'' = None))"

text \<open>A value is a dictionary, the only kind that has the \<^verbatim>\<open>get\<close> that line 271 calls.\<close>

fun is_dict :: "json \<Rightarrow> bool" where
  "is_dict (JObj _) = True"
| "is_dict _ = False"

text \<open>
  A turn of the loop skips its entry: the turn for \<open>t\<close> adds the events \<open>evs\<close> to the trace,
  leaves \<open>t\<close> as it is and does not set \<^verbatim>\<open>any_synced\<close>, and the loop goes on with the entries
  \<open>ts\<close> that follow \<open>t\<close>.
\<close>

definition skipped ::
  "env \<Rightarrow> int \<Rightarrow> nat \<Rightarrow> dict \<Rightarrow> dict list \<Rightarrow> bool \<Rightarrow> world \<Rightarrow> world \<Rightarrow> bool" where
  "skipped E now i t ts any_synced w evs =
     (sync_thread E now i t w = (Inr False, t, w @ evs) \<and>
      sync_loop E now i (t # ts) any_synced w =
        (case sync_loop E now (Suc i) ts any_synced (w @ evs) of
           (r, ts', any', w') \<Rightarrow> (r, t # ts', any', w')))"

text \<open>
  The events of failed attempts: for each attempt number with its warning, the request, the
  warning and the sleep of \<open>backoff\<close> times the attempt number.
\<close>

definition failed_attempts :: "request \<Rightarrow> rat \<Rightarrow> (int \<times> msg) list \<Rightarrow> world" where
  "failed_attempts q backoff ams =
     concat (map (\<lambda>(a, m). [Req q, Log WARNING m, Sleep (backoff * of_int a)]) ams)"

section \<open>Example environments\<close>

text \<open>
  Three networks for the concrete runs below: one that refuses every connection, one that
  answers the first request with status 500 and every later one with success, and one that
  always succeeds. Their parsers know three dates (\<open>1970-01-01T00:00:00\<close> with and without
  a zone, and the same day at two o'clock) and read the content \<open>F\<close> as a follow-up
  descriptor, the content \<open>U\<close> as a descriptor with an unknown action and the content
  \<open>[1]\<close> as a list.
\<close>

definition page1 :: json where
  "page1 = JObj [(''id'', JStr ''page1'')]"

definition ex_fromisoformat :: "string \<Rightarrow> pydt option" where
  "ex_fromisoformat s =
     (if s = ''1970-01-01T00:00:00+00:00'' then Some (Aware 0)
      else if s = ''1970-01-01T00:00:00'' then Some (Naive 0)
      else if s = ''1970-01-01T02:00:00+00:00'' then Some (Aware 7200000000)
      else None)"

definition ex_json_loads :: "string \<Rightarrow> json option" where
  "ex_json_loads s =
     (if s = ''F'' then Some (JObj [(''action'', JStr ''add_followup''),
                                   (''task'', JStr ''ping recruiter'')])
      else if s = ''U'' then Some (JObj [(''action'', JStr ''archive'')])
      else if s = ''[1]'' then Some (JArr [JNum 1])
      else None)"

definition env_down :: env where
  "env_down = \<lparr>NOTION_TOKEN = ''secret'',
                send = (\<lambda>n q. Inl (RequestException ''connection refused'')),
                utcnow_iso = (\<lambda>n. ''1970-01-01T03:00:00+00:00''),
                fromisoformat = ex_fromisoformat,
                json_loads = ex_json_loads\<rparr>"

definition env_flaky :: env where
  "env_flaky = \<lparr>NOTION_TOKEN = ''secret'',
                 send = (\<lambda>n q.
                   if n = 0
                   then Inr \<lparr>ok = False, status_code = 500, text_of = ''busy'',
                             json_of = Inl JSONDecodeError\<rparr>
                   else Inr \<lparr>ok = True, status_code = 200, text_of = ''{}'',
                             json_of = Inr page1\<rparr>),
                 utcnow_iso = (\<lambda>n. ''1970-01-01T03:00:00+00:00''),
                 fromisoformat = ex_fromisoformat,
                 json_loads = ex_json_loads\<rparr>"

definition env_up :: env where
  "env_up = \<lparr>NOTION_TOKEN = ''secret'',
              send = (\<lambda>n q. Inr \<lparr>ok = True, status_code = 200, text_of = ''{}'',
                                    json_of = Inr page1\<rparr>),
              utcnow_iso = (\<lambda>n. ''1970-01-01T03:00:00+00:00''),
              fromisoformat = ex_fromisoformat,
              json_loads = ex_json_loads\<rparr>"

text \<open>
  Queue entries for the concrete runs, read at the clock reading \<open>ex_now\<close> (three hours after
  \<open>1970-01-01T00:00:00Z\<close>): one that is due, one already synced, one an hour old, and due ones
  with a content that is no JSON, with an unknown action, with no thread id, with a date that
  does not parse and with a date that has no time zone.
\<close>

definition ex_now :: int where
  "ex_now = 10800000000"

definition t_due :: dict where
  "t_due = [(''thread_id'', JStr ''t1''), (''last_updated'', JStr ''1970-01-01T00:00:00Z''),
            (''synced'', JBool False), (''content'', JStr ''F'')]"

definition t_done :: dict where
  "t_done = [(''thread_id'', JStr ''t2''), (''last_updated'', JStr ''1970-01-01T00:00:00Z''),
             (''synced'', JBool True), (''content'', JStr ''F'')]"

definition t_young :: dict where
  "t_young = [(''thread_id'', JStr ''t3''), (''last_updated'', JStr ''1970-01-01T02:00:00Z''),
              (''synced'', JBool False), (''content'', JStr ''F'')]"

definition t_badjson :: dict where
  "t_badjson = [(''thread_id'', JStr ''t4''), (''last_updated'', JStr ''1970-01-01T00:00:00Z''),
                (''synced'', JBool False), (''content'', JStr ''{bad'')]"

definition t_young_badjson :: dict where
  "t_young_badjson =
     [(''thread_id'', JStr ''t5''), (''last_updated'', JStr ''1970-01-01T02:00:00Z''),
      (''synced'', JBool False), (''content'', JStr ''{bad'')]"

definition t_unknown :: dict where
  "t_unknown = [(''thread_id'', JStr ''t6''), (''last_updated'', JStr ''1970-01-01T00:00:00Z''),
                (''synced'', JBool False), (''content'', JStr ''U'')]"

definition t_noid :: dict where
  "t_noid = [(''last_updated'', JStr ''1970-01-01T00:00:00Z''),
             (''synced'', JBool False), (''content'', JStr ''F'')]"

definition t_badts :: dict where
  "t_badts = [(''thread_id'', JStr ''t8''), (''last_updated'', JStr ''yesterday''),
              (''synced'', JBool False), (''content'', JStr ''F'')]"

definition t_naive :: dict where
  "t_naive = [(''thread_id'', JStr ''t9''), (''last_updated'', JStr ''1970-01-01T00:00:00''),
              (''synced'', JBool False), (''content'', JStr ''F'')]"

text \<open>A file store that holds one queue file.\<close>

definition one_file :: "string \<Rightarrow> dict list \<Rightarrow> files" where
  "one_file p ts = (\<lambda>q. if q = p then Some ts else None)"

text \<open>
  Due entries whose content holds no command: a no-break space and nothing else, and a JSON
  list.
\<close>

definition t_blank :: dict where
  "t_blank = [(''thread_id'', JStr ''t10''), (''last_updated'', JStr ''1970-01-01T00:00:00Z''),
              (''synced'', JBool False), (''content'', JStr [CHR 0xA0])]"

definition t_list :: dict where
  "t_list = [(''thread_id'', JStr ''t11''), (''last_updated'', JStr ''1970-01-01T00:00:00Z''),
             (''synced'', JBool False), (''content'', JStr ''[1]'')]"

text \<open>A file store that holds one CSV file, which reads without an error.\<close>

definition one_csv :: "string \<Rightarrow> dict list \<Rightarrow> csv_files" where
  "one_csv p rows = (\<lambda>q. if q = p then Some (rows, None) else None)"

text \<open>
  Two follow-ups rows as \<^verbatim>\<open>csv.DictReader\<close> yields them: one of a file whose header has the
  columns \<open>Task\<close> and \<open>Completed\<close>, for a line that holds the task and nothing more; and the
  same line in a file whose header has no \<open>Completed\<close> column.
\<close>

definition short_row :: dict where
  "short_row = [(''Task'', JStr ''call back''), (''Completed'', JNull)]"

definition task_row :: dict where
  "task_row = [(''Task'', JStr ''call back'')]"

section \<open>Evaluation and trace lemmas\<close>

lemma upto_1_3: "[1..3::int] = [1, 2, 3]"
  by code_simp

lemma str_int_3: "str_int 3 = ''3''"
  by code_simp

lemma lower_post: "lower ''post'' = ''post''"
  by code_simp

section \<open>The retry helper\<close>

lemma attempt_once_fails:
  assumes "lower method \<in> {''post'', ''patch'', ''get''}"
    and "fails (send E (nreq w) (request_of (lower method) url headers payload params))"
  shows "\<exists>m. attempt_once E method url headers payload params w =
           (Next, w @ [Req (request_of (lower method) url headers payload params), Log WARNING m])"
  using assms
  by (auto simp: attempt_once_def Let_def split: sum.splits)

lemma attempt_once_succeeds:
  assumes "lower method \<in> {''post'', ''patch'', ''get''}"
    and "send E (nreq w) (request_of (lower method) url headers payload params) = Inr r"
    and "ok r" and "json_of r = Inr v"
  shows "attempt_once E method url headers payload params w =
           (Return v, w @ [Req (request_of (lower method) url headers payload params)])"
  using assms
  by (auto simp: attempt_once_def Let_def split: sum.splits)

lemma failed_attempts_Cons:
  "failed_attempts q backoff ((a, m) # ams) =
     [Req q, Log WARNING m, Sleep (backoff * of_int a)] @ failed_attempts q backoff ams"
  by (simp add: failed_attempts_def)

lemma attempts_loop_all_fail:
  assumes "lower method \<in> {''post'', ''patch'', ''get''}"
    and "\<forall>j < length as.
           fails (send E (nreq w + j) (request_of (lower method) url headers payload params))"
    and "\<forall>a \<in> set as. 0 \<le> backoff * of_int a"
  shows "\<exists>ms. length ms = length as
           \<and> attempts_loop E method url headers payload params backoff as w =
               (None, w @ failed_attempts (request_of (lower method) url headers payload params)
                             backoff (zip as ms))"
  using assms
proof (induction as arbitrary: w)
  case Nil
  then show ?case by (simp add: failed_attempts_def)
next
  case (Cons a as)
  let ?q = "request_of (lower method) url headers payload params"
  from Cons.prems have "fails (send E (nreq w) ?q)" by force
  with Cons.prems(1) obtain m where
    a1: "attempt_once E method url headers payload params w = (Next, w @ [Req ?q, Log WARNING m])"
    using attempt_once_fails by blast
  from Cons.prems(3) have nn: "\<not> backoff * of_int a < 0" and rest: "\<forall>a \<in> set as. 0 \<le> backoff * of_int a"
    by simp_all
  let ?w = "(w @ [Req ?q, Log WARNING m]) @ [Sleep (backoff * of_int a)]"
  have n: "nreq ?w = Suc (nreq w)" by (simp add: nreq_def)
  have "\<forall>j < length as. fails (send E (nreq ?w + j) ?q)"
    using Cons.prems(2) n by fastforce
  from Cons.IH [OF Cons.prems(1) this rest] obtain ms where
    ih: "length ms = length as"
        "attempts_loop E method url headers payload params backoff as ?w =
           (None, ?w @ failed_attempts ?q backoff (zip as ms))"
    by blast
  have "attempts_loop E method url headers payload params backoff (a # as) w =
          (None, w @ failed_attempts ?q backoff (zip (a # as) (m # ms)))"
    using a1 ih(2) nn by (simp add: failed_attempts_Cons)
  moreover have "length (m # ms) = length (a # as)" using ih(1) by simp
  ultimately show ?case by blast
qed

lemma attempts_loop_first_success:
  assumes "lower method \<in> {''post'', ''patch'', ''get''}"
    and "k < length as"
    and "\<forall>j < k.
           fails (send E (nreq w + j) (request_of (lower method) url headers payload params))"
    and "send E (nreq w + k) (request_of (lower method) url headers payload params) = Inr r"
    and "ok r" and "json_of r = Inr v"
    and "\<forall>a \<in> set as. 0 \<le> backoff * of_int a"
  shows "\<exists>ms. length ms = k
           \<and> attempts_loop E method url headers payload params backoff as w =
               (Some (Inr v),
                w @ failed_attempts (request_of (lower method) url headers payload params)
                      backoff (zip as ms)
                  @ [Req (request_of (lower method) url headers payload params)])"
  using assms
proof (induction as arbitrary: w k)
  case Nil
  then show ?case by simp
next
  case (Cons a as)
  let ?q = "request_of (lower method) url headers payload params"
  show ?case
  proof (cases k)
    case 0
    with Cons.prems have
      "attempt_once E method url headers payload params w = (Return v, w @ [Req ?q])"
      using attempt_once_succeeds by simp
    then have "attempts_loop E method url headers payload params backoff (a # as) w
                 = (Some (Inr v), w @ failed_attempts ?q backoff (zip (a # as) []) @ [Req ?q])"
      by (simp add: failed_attempts_def)
    with 0 show ?thesis by (intro exI [of _ "[]"]) simp
  next
    case (Suc k')
    with Cons.prems have "fails (send E (nreq w) ?q)" by force
    with Cons.prems(1) obtain m where
      a1: "attempt_once E method url headers payload params w
             = (Next, w @ [Req ?q, Log WARNING m])"
      using attempt_once_fails by blast
    from Cons.prems(7) have nn: "\<not> backoff * of_int a < 0"
      and rest: "\<forall>a \<in> set as. 0 \<le> backoff * of_int a"
      by simp_all
    let ?w = "(w @ [Req ?q, Log WARNING m]) @ [Sleep (backoff * of_int a)]"
    have n: "nreq ?w = Suc (nreq w)" by (simp add: nreq_def)
    have p2: "k' < length as" using Cons.prems(2) Suc by simp
    have p3: "\<forall>j < k'. fails (send E (nreq ?w + j) ?q)"
      using Cons.prems(3) n Suc by fastforce
    have p4: "send E (nreq ?w + k') ?q = Inr r"
      using Cons.prems(4) n Suc by simp
    from Cons.IH [OF Cons.prems(1) p2 p3 p4 Cons.prems(5,6) rest] obtain ms where
      ih: "length ms = k'"
          "attempts_loop E method url headers payload params backoff as ?w
             = (Some (Inr v), ?w @ failed_attempts ?q backoff (zip as ms) @ [Req ?q])"
      by blast
    have "attempts_loop E method url headers payload params backoff (a # as) w
            = (Some (Inr v), w @ failed_attempts ?q backoff (zip (a # as) (m # ms)) @ [Req ?q])"
      using a1 ih(2) nn by (simp add: failed_attempts_Cons)
    moreover have "length (m # ms) = k" using ih(1) Suc by simp
    ultimately show ?thesis by blast
  qed
qed

lemma default_backoff_nonneg: "\<forall>a \<in> set [1, 2, 3 :: int]. 0 \<le> (1 :: rat) * of_int a"
  by simp

text \<open>
  C5. For a supported method (post, patch, get, in any letter case), the default three
  retries and the default backoff \<open>1\<close>. When every attempt fails, by a \<open>RequestException\<close> or
  a response that is not \<open>ok\<close>, the helper makes exactly three attempts: each sends the
  request, logs a warning and then sleeps the backoff times the attempt number, that is
  \<open>1\<close>, \<open>2\<close>, \<open>3\<close> in turn; after the third sleep it raises a \<open>RuntimeError\<close> whose message
  holds the URL and the count 3. When the first \<open>k\<close> attempts fail and the next one, still
  among the three, is \<open>ok\<close> with a body that decodes to \<open>v\<close>, the helper goes through the
  \<open>k\<close> failed attempts with their sleeps, sends the request once more and returns \<open>v\<close>.
\<close>

theorem http_request_with_retries_contract:
  assumes "lower method \<in> {''post'', ''patch'', ''get''}"
  shows "((\<forall>n q. fails (send E n q)) \<longrightarrow>
           (\<exists>m1 m2 m3.
              http_request_with_retries E method url headers payload params 3 1 w =
                (Inl (RuntimeError (''Failed HTTP request to '' @ url @ '' after 3 attempts'')),
                 w @ [Req (request_of (lower method) url headers payload params),
                      Log WARNING m1, Sleep (1 * 1),
                      Req (request_of (lower method) url headers payload params),
                      Log WARNING m2, Sleep (1 * 2),
                      Req (request_of (lower method) url headers payload params),
                      Log WARNING m3, Sleep (1 * 3)])))
       \<and> (\<forall>k r v. k < 3
             \<and> (\<forall>j < k. fails (send E (nreq w + j)
                                   (request_of (lower method) url headers payload params)))
             \<and> send E (nreq w + k) (request_of (lower method) url headers payload params) = Inr r
             \<and> ok r \<and> json_of r = Inr v \<longrightarrow>
           (\<exists>ms. length ms = k
              \<and> http_request_with_retries E method url headers payload params 3 1 w =
                  (Inr v,
                   w @ failed_attempts (request_of (lower method) url headers payload params)
                         1 (zip [1, 2, 3] ms)
                     @ [Req (request_of (lower method) url headers payload params)])))"
proof (intro conjI impI allI)
  let ?q = "request_of (lower method) url headers payload params"
  assume "\<forall>n q. fails (send E n q)"
  then have "\<forall>j < length [1, 2, 3 :: int]. fails (send E (nreq w + j) ?q)" by blast
  from attempts_loop_all_fail [OF assms this default_backoff_nonneg] obtain ms where
    ms: "length ms = length [1, 2, 3 :: int]"
        "attempts_loop E method url headers payload params 1 [1, 2, 3] w =
           (None, w @ failed_attempts ?q 1 (zip [1, 2, 3] ms))"
    by blast
  from ms(1) obtain m1 m2 m3 where "ms = [m1, m2, m3]"
    by (auto simp: length_Suc_conv)
  with ms(2) have
    "http_request_with_retries E method url headers payload params 3 1 w =
       (Inl (RuntimeError (''Failed HTTP request to '' @ url @ '' after 3 attempts'')),
        w @ [Req ?q, Log WARNING m1, Sleep (1 * 1),
             Req ?q, Log WARNING m2, Sleep (1 * 2),
             Req ?q, Log WARNING m3, Sleep (1 * 3)])"
    by (simp add: http_request_with_retries_def upto_1_3 str_int_3 failed_attempts_def)
  then show "\<exists>m1 m2 m3.
              http_request_with_retries E method url headers payload params 3 1 w =
                (Inl (RuntimeError (''Failed HTTP request to '' @ url @ '' after 3 attempts'')),
                 w @ [Req ?q, Log WARNING m1, Sleep (1 * 1),
                      Req ?q, Log WARNING m2, Sleep (1 * 2),
                      Req ?q, Log WARNING m3, Sleep (1 * 3)])"
    by blast
next
  fix k r v
  let ?q = "request_of (lower method) url headers payload params"
  assume a: "k < 3 \<and> (\<forall>j < k. fails (send E (nreq w + j) ?q))
             \<and> send E (nreq w + k) ?q = Inr r \<and> ok r \<and> json_of r = Inr v"
  then have "k < length [1, 2, 3 :: int]" by simp
  from attempts_loop_first_success
         [OF assms this, of E w url headers payload params r v 1] a default_backoff_nonneg
  obtain ms where
    "length ms = k"
    "attempts_loop E method url headers payload params 1 [1, 2, 3] w
       = (Some (Inr v), w @ failed_attempts ?q 1 (zip [1, 2, 3] ms) @ [Req ?q])"
    by blast
  then have "length ms = k
              \<and> http_request_with_retries E method url headers payload params 3 1 w =
                  (Inr v, w @ failed_attempts ?q 1 (zip [1, 2, 3] ms) @ [Req ?q])"
    by (simp only: http_request_with_retries_def upto_1_3) simp
  then show "\<exists>ms. length ms = k
              \<and> http_request_with_retries E method url headers payload params 3 1 w =
                  (Inr v, w @ failed_attempts ?q 1 (zip [1, 2, 3] ms) @ [Req ?q])"
    by blast
qed

theorem http_request_with_retries_contract_witness:
  "lower ''post'' \<in> {''post'', ''patch'', ''get''}
   \<and> (\<forall>n q. fails (send env_down n q))
   \<and> (\<exists>m1 m2 m3. http_request_with_retries env_down ''post'' ''https://x'' [] None None 3 1 [] =
         (Inl (RuntimeError ''Failed HTTP request to https://x after 3 attempts''),
          [Req (request_of ''post'' ''https://x'' [] None None), Log WARNING m1, Sleep 1,
           Req (request_of ''post'' ''https://x'' [] None None), Log WARNING m2, Sleep 2,
           Req (request_of ''post'' ''https://x'' [] None None), Log WARNING m3, Sleep 3]))
   \<and> fails (send env_flaky 0 (request_of (lower ''post'') ''https://x'' [] None None))
   \<and> (\<exists>m. http_request_with_retries env_flaky ''post'' ''https://x'' [] None None 3 1 [] =
         (Inr page1,
          [Req (request_of ''post'' ''https://x'' [] None None), Log WARNING m, Sleep 1,
           Req (request_of ''post'' ''https://x'' [] None None)]))"
proof -
  let ?q = "request_of (lower ''post'') ''https://x'' [] None None"
  have sup: "lower ''post'' \<in> {''post'', ''patch'', ''get''}"
    by (simp add: lower_post)
  have down: "\<forall>n q. fails (send env_down n q)"
    by (simp add: env_down_def)
  have first: "fails (send env_flaky 0 ?q)"
    by (simp add: env_flaky_def)
  note T1 = http_request_with_retries_contract
         [of "''post''" env_down "''https://x''" "[]" None None "[]", OF sup]
  note T2 = http_request_with_retries_contract
         [of "''post''" env_flaky "''https://x''" "[]" None None "[]", OF sup]
  from conjunct1 [OF T1, THEN mp, OF down] obtain m1 m2 m3 where
    "http_request_with_retries env_down ''post'' ''https://x'' [] None None 3 1 [] =
       (Inl (RuntimeError (''Failed HTTP request to '' @ ''https://x'' @ '' after 3 attempts'')),
        [] @ [Req ?q, Log WARNING m1, Sleep (1 * 1), Req ?q, Log WARNING m2, Sleep (1 * 2),
              Req ?q, Log WARNING m3, Sleep (1 * 3)])"
    by (elim exE)
  then have a: "\<exists>m1 m2 m3.
      http_request_with_retries env_down ''post'' ''https://x'' [] None None 3 1 [] =
         (Inl (RuntimeError ''Failed HTTP request to https://x after 3 attempts''),
          [Req (request_of ''post'' ''https://x'' [] None None), Log WARNING m1, Sleep 1,
           Req (request_of ''post'' ''https://x'' [] None None), Log WARNING m2, Sleep 2,
           Req (request_of ''post'' ''https://x'' [] None None), Log WARNING m3, Sleep 3])"
    by (intro exI [of _ m1] exI [of _ m2] exI [of _ m3]) (simp add: lower_post)
  have prem: "(1::nat) < 3
             \<and> (\<forall>j < (1::nat). fails (send env_flaky (nreq [] + j) ?q))
             \<and> send env_flaky (nreq [] + 1) ?q
                = Inr \<lparr>ok = True, status_code = 200, text_of = ''{}'', json_of = Inr page1\<rparr>
             \<and> ok \<lparr>ok = True, status_code = 200, text_of = ''{}'', json_of = Inr page1\<rparr>
             \<and> json_of \<lparr>ok = True, status_code = 200, text_of = ''{}'', json_of = Inr page1\<rparr>
                = Inr page1"
    by (simp add: env_flaky_def nreq_def)
  from conjunct2 [OF T2, THEN spec, THEN spec, THEN spec, THEN mp, OF prem] obtain ms where
    f: "length ms = 1"
       "http_request_with_retries env_flaky ''post'' ''https://x'' [] None None 3 1 [] =
          (Inr page1, [] @ failed_attempts ?q 1 (zip [1, 2, 3] ms) @ [Req ?q])"
    by (elim exE conjE)
  from f(1) obtain m where "ms = [m]" by (auto simp: length_Suc_conv)
  with f(2) have b: "\<exists>m.
      http_request_with_retries env_flaky ''post'' ''https://x'' [] None None 3 1 [] =
         (Inr page1,
          [Req (request_of ''post'' ''https://x'' [] None None), Log WARNING m, Sleep 1,
           Req (request_of ''post'' ''https://x'' [] None None)])"
    by (intro exI [of _ m]) (simp add: failed_attempts_def lower_post)
  from sup down a first b show ?thesis by (intro conjI)
qed

text \<open>
  At a negative backoff the first failed attempt is the last: \<^verbatim>\<open>time.sleep\<close> raises and no
  further request is sent.
\<close>

lemma negative_backoff_raises:
  "http_request_with_retries env_down ''post'' ''https://x'' [] None None 3 (- 1) [] =
     (Inl ValueError_sleep,
      [Req (request_of ''post'' ''https://x'' [] None None),
       Log WARNING (Request_exception (RequestException ''connection refused''))])"
  by code_simp

section \<open>Record builders and domain operations\<close>

lemma requests_of_append: "requests_of (xs @ ys) = requests_of xs @ requests_of ys"
  by (induction xs rule: requests_of.induct) auto

lemma calls_at_append: "calls_at i (xs @ ys) = calls_at i xs @ calls_at i ys"
  by (induction i xs rule: calls_at.induct) auto

lemma added_append: "added w (w @ evs) = evs"
  by (simp add: added_def)

lemma attempt_once_trace:
  assumes "lower method \<in> {''post'', ''patch'', ''get''}"
  shows "\<exists>evs. snd (attempt_once E method url headers payload params w) = w @ evs
           \<and> requests_of evs = [request_of (lower method) url headers payload params]
           \<and> calls_at i evs = []"
  using assms
  by (auto simp: attempt_once_def Let_def split: sum.splits)

lemma attempts_loop_trace:
  assumes "lower method \<in> {''post'', ''patch'', ''get''}"
  shows "\<exists>evs n. snd (attempts_loop E method url headers payload params backoff as w) = w @ evs
           \<and> requests_of evs = replicate n (request_of (lower method) url headers payload params)
           \<and> (as \<noteq> [] \<longrightarrow> 0 < n) \<and> calls_at i evs = []"
proof (induction as arbitrary: w)
  case Nil
  show ?case by (intro exI [of _ "[]"] exI [of _ 0]) simp
next
  case (Cons a as)
  let ?q = "request_of (lower method) url headers payload params"
  from attempt_once_trace [OF assms, of E url headers payload params w i] obtain e1 where
    e1: "snd (attempt_once E method url headers payload params w) = w @ e1"
        "requests_of e1 = [?q]" "calls_at i e1 = []"
    by blast
  obtain f where f: "attempt_once E method url headers payload params w = (f, w @ e1)"
    using e1(1) by (cases "attempt_once E method url headers payload params w") auto
  show ?case
  proof (cases f)
    case (Return v)
    with f e1 show ?thesis
      by (intro exI [of _ e1] exI [of _ 1]) simp
  next
    case (Raise e)
    with f e1 show ?thesis
      by (intro exI [of _ e1] exI [of _ 1]) simp
  next
    case Next
    show ?thesis
    proof (cases "backoff * of_int a < 0")
      case True
      with f Next e1 show ?thesis
        by (intro exI [of _ e1] exI [of _ 1]) simp
    next
      case False
    let ?w = "(w @ e1) @ [Sleep (backoff * of_int a)]"
    from Cons.IH [of ?w] obtain e2 n where
      e2: "snd (attempts_loop E method url headers payload params backoff as ?w) = ?w @ e2"
          "requests_of e2 = replicate n ?q" "calls_at i e2 = []"
      by blast
    let ?evs = "e1 @ [Sleep (backoff * of_int a)] @ e2"
    have "snd (attempts_loop E method url headers payload params backoff (a # as) w) = w @ ?evs"
      using f Next False e2(1) by simp
    moreover have "requests_of ?evs = replicate (Suc n) ?q"
      using e1(2) e2(2) by (simp add: requests_of_append)
    moreover have "calls_at i ?evs = []"
      using e1(3) e2(3) by (simp add: calls_at_append)
    ultimately show ?thesis
      by (intro exI [of _ ?evs] exI [of _ "Suc n"]) simp
    qed
  qed
qed

lemma http_request_trace:
  "snd (http_request_with_retries E method url headers payload params retries backoff w) =
   snd (attempts_loop E method url headers payload params backoff [1..retries] w)"
  by (cases "attempts_loop E method url headers payload params backoff [1..retries] w")
     (simp add: http_request_with_retries_def split: option.splits)

lemma notion_post_trace:
  "\<exists>evs n. snd (notion_post E path payload w) = w @ evs
     \<and> requests_of evs = replicate (Suc n) (request_of ''post'' (NOTION_API @ path) (HEADERS E) (Some payload) None)
     \<and> calls_at i evs = []"
proof -
  have sup: "lower ''post'' \<in> {''post'', ''patch'', ''get''}" by (simp add: lower_post)
  from attempts_loop_trace [OF sup, of E "NOTION_API @ path" "HEADERS E" "Some payload" None 1 "[1, 2, 3]" w i]
  obtain evs n where
    e: "snd (attempts_loop E ''post'' (NOTION_API @ path) (HEADERS E) (Some payload) None 1 [1, 2, 3] w) = w @ evs"
       "requests_of evs = replicate n (request_of ''post'' (NOTION_API @ path) (HEADERS E) (Some payload) None)"
       "0 < n" "calls_at i evs = []"
    by (auto simp: lower_post)
  then obtain m where m: "n = Suc m" by (cases n) auto
  have "snd (notion_post E path payload w) = w @ evs"
    using e(1) by (simp only: notion_post_def http_request_trace upto_1_3)
  with e m show ?thesis by blast
qed

lemma logged_post_trace:
  "\<exists>n. requests_of (added w (snd (notion_post E path payload (w @ [Log l m])))) =
          replicate (Suc n) (request_of ''post'' (NOTION_API @ path) (HEADERS E) (Some payload) None)
     \<and> calls_at i (added w (snd (notion_post E path payload (w @ [Log l m])))) = []"
proof -
  from notion_post_trace [of E path payload "w @ [Log l m]" i] obtain evs n where
    e: "snd (notion_post E path payload (w @ [Log l m])) = (w @ [Log l m]) @ evs"
       "requests_of evs =
          replicate (Suc n) (request_of ''post'' (NOTION_API @ path) (HEADERS E) (Some payload) None)"
       "calls_at i evs = []"
    by blast
  have "added w (snd (notion_post E path payload (w @ [Log l m]))) = Log l m # evs"
    using e(1) by (simp add: added_def)
  with e(2,3) show ?thesis by auto
qed

lemma map_of_dict_set: "map_of (dict_set d k v) = (map_of d)(k \<mapsto> v)"
  by (induction d) auto

lemma dict_get_dict_set_other: "k' \<noteq> k \<Longrightarrow> dict_get (dict_set d k v) k' x = dict_get d k' x"
  by (simp add: dict_get_def map_of_dict_set)

lemma dict_get_dict_set_same: "dict_get (dict_set d k v) k x = v"
  by (simp add: dict_get_def map_of_dict_set)

lemma logged_post_nonempty:
  "requests_of (added w (snd (notion_post E path payload (w @ [Log l m])))) \<noteq> []"
  using logged_post_trace [of w E path payload l m 0] by auto

lemma logged_post_payload:
  "q \<in> set (requests_of (added w (snd (notion_post E path payload (w @ [Log l m])))))
     \<Longrightarrow> rq_json q = Some payload"
  using logged_post_trace [of w E path payload l m 0] by (auto simp: request_of_def)

text \<open>
  C6 (as amended). For an absent or empty value \<open>v\<close> (one that Python takes for false):
  \<open>date_prop\<close> returns the explicit marker \<open>{"date": None}\<close> and \<open>checkbox_prop\<close> the
  explicit \<open>{"checkbox": False}\<close>; \<open>title_prop\<close>, \<open>rich_text_prop\<close> and \<open>select_prop\<close> wrap
  the value as it is and never return an empty mapping; \<open>url_prop\<close> and \<open>relation_prop\<close>
  return the empty mapping \<open>{}\<close>, with no marker in it.
\<close>

theorem record_builders_absent_value:
  assumes "\<not> truthy v"
  shows "date_prop v = JObj [(''date'', JNull)]
       \<and> checkbox_prop v = JObj [(''checkbox'', JBool False)]
       \<and> title_prop v = JObj [(''title'', JArr [JObj [(''text'', JObj [(''content'', v)])]])]
       \<and> rich_text_prop v = JObj [(''rich_text'', JArr [JObj [(''text'', JObj [(''content'', v)])]])]
       \<and> select_prop v = JObj [(''select'', JObj [(''name'', v)])]
       \<and> url_prop v = JObj []
       \<and> relation_prop v = JObj []"
  using assms
  by (simp add: date_prop_def checkbox_prop_def title_prop_def rich_text_prop_def select_prop_def
        url_prop_def relation_prop_def)

theorem record_builders_absent_value_witness:
  "\<not> truthy JNull \<and> \<not> truthy (JStr '''')
   \<and> date_prop JNull = JObj [(''date'', JNull)]
   \<and> date_prop (JStr '''') = JObj [(''date'', JNull)]
   \<and> checkbox_prop JNull = JObj [(''checkbox'', JBool False)]
   \<and> title_prop (JStr '''') = JObj [(''title'', JArr [JObj [(''text'', JObj [(''content'', JStr '''')])]])]
   \<and> url_prop (JStr '''') = JObj []
   \<and> relation_prop JNull = JObj []"
proof -
  have n: "\<not> truthy JNull" and e: "\<not> truthy (JStr '''')" by simp_all
  from record_builders_absent_value [OF n] record_builders_absent_value [OF e] n e
  show ?thesis by simp
qed

theorem record_builders_absent_value_counterexample:
  "url_prop JNull = JObj [] \<and> url_prop (JStr '''') = JObj []
   \<and> relation_prop JNull = JObj [] \<and> relation_prop (JStr '''') = JObj []"
  by (simp add: url_prop_def relation_prop_def)

text \<open>
  C7. Whatever the field values, the network and the trace so far, each of the four domain
  operations sends at least one request, and every request it sends carries a JSON payload
  whose \<open>parent\<close> is \<open>{"database_id": ID}\<close> with \<open>ID\<close> the identifier fixed for its record
  kind: \<open>DB_JOB_APPS\<close> for \<open>create_job_application\<close>, \<open>DB_NETWORKING\<close> for
  \<open>add_network_contact\<close>, \<open>DB_INTERVIEWS\<close> for \<open>add_interview\<close>, \<open>DB_FOLLOWUPS\<close> for
  \<open>add_followup\<close>. The four identifiers are pairwise distinct.
\<close>

theorem domain_operations_parent:
  "(let qs = requests_of (added w (snd (create_job_application E company role jd_summary jd_link
                                          location salary_range priority w)))
    in qs \<noteq> [] \<and> (\<forall>q \<in> set qs. payload_parent q = Some (JObj [(''database_id'', JStr DB_JOB_APPS)])))
   \<and> (let qs = requests_of (added w (snd (add_network_contact E name company role linkedin email
                                            status w)))
      in qs \<noteq> [] \<and> (\<forall>q \<in> set qs. payload_parent q = Some (JObj [(''database_id'', JStr DB_NETWORKING)])))
   \<and> (let qs = requests_of (added w (snd (add_interview E application_page_id stage interviewer
                                            date_iso notes outcome w)))
      in qs \<noteq> [] \<and> (\<forall>q \<in> set qs. payload_parent q = Some (JObj [(''database_id'', JStr DB_INTERVIEWS)])))
   \<and> (let qs = requests_of (added w (snd (add_followup E task related_application_page_id
                                            due_date_iso completed notes w)))
      in qs \<noteq> [] \<and> (\<forall>q \<in> set qs. payload_parent q = Some (JObj [(''database_id'', JStr DB_FOLLOWUPS)])))
   \<and> distinct [DB_JOB_APPS, DB_NETWORKING, DB_INTERVIEWS, DB_FOLLOWUPS]"
proof (intro conjI)
  show "let qs = requests_of (added w (snd (create_job_application E company role jd_summary jd_link
                                          location salary_range priority w)))
    in qs \<noteq> [] \<and> (\<forall>q \<in> set qs. payload_parent q = Some (JObj [(''database_id'', JStr DB_JOB_APPS)]))"
    unfolding create_job_application_def Let_def
    by (intro conjI ballI, rule logged_post_nonempty, drule logged_post_payload)
       (simp add: payload_parent_def)
  show "let qs = requests_of (added w (snd (add_network_contact E name company role linkedin email
                                            status w)))
      in qs \<noteq> [] \<and> (\<forall>q \<in> set qs. payload_parent q = Some (JObj [(''database_id'', JStr DB_NETWORKING)]))"
    unfolding add_network_contact_def Let_def
    by (intro conjI ballI, rule logged_post_nonempty, drule logged_post_payload)
       (simp add: payload_parent_def)
  show "let qs = requests_of (added w (snd (add_interview E application_page_id stage interviewer
                                            date_iso notes outcome w)))
      in qs \<noteq> [] \<and> (\<forall>q \<in> set qs. payload_parent q = Some (JObj [(''database_id'', JStr DB_INTERVIEWS)]))"
    unfolding add_interview_def Let_def
    by (intro conjI ballI, rule logged_post_nonempty, drule logged_post_payload)
       (simp add: payload_parent_def)
  show "let qs = requests_of (added w (snd (add_followup E task related_application_page_id
                                            due_date_iso completed notes w)))
      in qs \<noteq> [] \<and> (\<forall>q \<in> set qs. payload_parent q = Some (JObj [(''database_id'', JStr DB_FOLLOWUPS)]))"
    unfolding add_followup_def Let_def
    by (intro conjI ballI, rule logged_post_nonempty, drule logged_post_payload)
       (simp add: payload_parent_def)
  show "distinct [DB_JOB_APPS, DB_NETWORKING, DB_INTERVIEWS, DB_FOLLOWUPS]"
    by (simp add: DB_JOB_APPS_def DB_NETWORKING_def DB_INTERVIEWS_def DB_FOLLOWUPS_def)
qed

theorem domain_operations_parent_witness:
  "requests_of (added [] (snd (create_job_application env_up (JStr ''Meta'') (JStr ''PM'') (JStr '''')
                                 (JStr '''') (JStr '''') (JStr '''') (JStr ''Medium'') []))) \<noteq> []
   \<and> payload_parent (hd (requests_of (added [] (snd (create_job_application env_up (JStr ''Meta'')
                                 (JStr ''PM'') (JStr '''') (JStr '''') (JStr '''') (JStr '''')
                                 (JStr ''Medium'') [])))))
       = Some (JObj [(''database_id'', JStr ''2c356c757b0780968c5cc58ea0ef1b30'')])
   \<and> payload_parent (hd (requests_of (added [] (snd (add_network_contact env_up (JStr ''Ann'')
                                 (JStr ''Meta'') (JStr ''PM'') (JStr '''') (JStr '''')
                                 (JStr ''Cold'') [])))))
       = Some (JObj [(''database_id'', JStr ''2c356c757b0780f19699c11e1f5e7db1'')])
   \<and> payload_parent (hd (requests_of (added [] (snd (add_interview env_up (JStr ''page1'')
                                 (JStr ''Phone'') (JStr '''') JNull (JStr '''')
                                 (JStr ''Pending'') [])))))
       = Some (JObj [(''database_id'', JStr ''2c356c757b07803f91d5f1836877fc7b'')])
   \<and> payload_parent (hd (requests_of (added [] (snd (add_followup env_up (JStr ''ping recruiter'')
                                 JNull JNull (JBool False) (JStr '''') [])))))
       = Some (JObj [(''database_id'', JStr ''2c456c757b07807b82aefb0c868a58d4'')])"
  using domain_operations_parent
    [of "[]" env_up "JStr ''Meta''" "JStr ''PM''" "JStr ''''" "JStr ''''" "JStr ''''" "JStr ''''"
        "JStr ''Medium''" "JStr ''Ann''" "JStr ''''" "JStr ''''" "JStr ''Cold''" "JStr ''page1''"
        "JStr ''Phone''" "JStr ''''" JNull "JStr ''''" "JStr ''Pending''" "JStr ''ping recruiter''"
        JNull JNull "JBool False", unfolded Let_def]
  by (simp add: hd_in_set DB_JOB_APPS_def DB_NETWORKING_def DB_INTERVIEWS_def DB_FOLLOWUPS_def)

text \<open>
  C10. For a descriptor \<open>d\<close> whose action is \<open>add_followup\<close>, \<open>process_thread_command\<close> is
  \<open>add_followup\<close> called with \<open>completed = False\<close> and with the task \<open>d.get("task", "Follow up")\<close>.
  Setting the descriptor's \<open>completed\<close> field to any value \<open>v\<close> changes nothing in what
  \<open>process_thread_command\<close> does. Every request sent has the \<open>Completed\<close> property
  \<open>{"checkbox": False}\<close>, and, when the descriptor has no \<open>task\<close> key, the \<open>Task\<close> property
  is the title \<open>Follow up\<close>; at least one request is sent, so the descriptor is not rejected.
\<close>

theorem replayed_followup_fields:
  assumes "dict_get d ''action'' JNull = JStr ''add_followup''"
  shows "process_thread_command E (JObj d) w =
           add_followup E (dict_get d ''task'' (JStr ''Follow up''))
             (dict_get d ''related_application_page_id'' JNull) (dict_get d ''due_date'' JNull)
             (JBool False) (dict_get d ''notes'' (JStr '''')) w
       \<and> process_thread_command E (JObj (dict_set d ''completed'' v)) w
           = process_thread_command E (JObj d) w
       \<and> (let qs = requests_of (added w (snd (process_thread_command E (JObj d) w))) in
            qs \<noteq> [] \<and>
            (\<forall>q \<in> set qs.
               payload_property q ''Completed'' = Some (JObj [(''checkbox'', JBool False)])
               \<and> (map_of d ''task'' = None \<longrightarrow>
                    payload_property q ''Task'' =
                      Some (JObj [(''title'',
                                   JArr [JObj [(''text'', JObj [(''content'', JStr ''Follow up'')])]])]))))"
proof (intro conjI)
  show eq: "process_thread_command E (JObj d) w =
           add_followup E (dict_get d ''task'' (JStr ''Follow up''))
             (dict_get d ''related_application_page_id'' JNull) (dict_get d ''due_date'' JNull)
             (JBool False) (dict_get d ''notes'' (JStr '''')) w"
    using assms by (simp add: process_thread_command_def)
  show "process_thread_command E (JObj (dict_set d ''completed'' v)) w
           = process_thread_command E (JObj d) w"
    by (auto simp: process_thread_command_def Let_def dict_get_dict_set_other)
  show "let qs = requests_of (added w (snd (process_thread_command E (JObj d) w))) in
            qs \<noteq> [] \<and>
            (\<forall>q \<in> set qs.
               payload_property q ''Completed'' = Some (JObj [(''checkbox'', JBool False)])
               \<and> (map_of d ''task'' = None \<longrightarrow>
                    payload_property q ''Task'' =
                      Some (JObj [(''title'',
                                   JArr [JObj [(''text'', JObj [(''content'', JStr ''Follow up'')])]])])))"
    unfolding eq add_followup_def Let_def
    by (intro conjI ballI impI;
        (rule logged_post_nonempty
         | (drule logged_post_payload,
            simp add: payload_property_def checkbox_prop_def title_prop_def dict_get_def)))
qed

theorem replayed_followup_fields_witness:
  "dict_get [(''action'', JStr ''add_followup''), (''completed'', JBool True)] ''action'' JNull
     = JStr ''add_followup''
   \<and> map_of [(''action'', JStr ''add_followup''), (''completed'', JBool True)] ''task'' = None
   \<and> requests_of (added [] (snd (process_thread_command env_up
        (JObj [(''action'', JStr ''add_followup''), (''completed'', JBool True)]) []))) \<noteq> []
   \<and> payload_property (hd (requests_of (added [] (snd (process_thread_command env_up
        (JObj [(''action'', JStr ''add_followup''), (''completed'', JBool True)]) [])))))
        ''Completed'' = Some (JObj [(''checkbox'', JBool False)])
   \<and> payload_property (hd (requests_of (added [] (snd (process_thread_command env_up
        (JObj [(''action'', JStr ''add_followup''), (''completed'', JBool True)]) [])))))
        ''Task'' = Some (JObj [(''title'',
                                 JArr [JObj [(''text'', JObj [(''content'', JStr ''Follow up'')])]])])"
proof -
  have a: "dict_get [(''action'', JStr ''add_followup''), (''completed'', JBool True)] ''action'' JNull
             = JStr ''add_followup''"
    by (simp add: dict_get_def)
  have t: "map_of [(''action'', JStr ''add_followup''), (''completed'', JBool True)] ''task'' = None"
    by simp
  from replayed_followup_fields [OF a, of env_up "[]" JNull, THEN conjunct2, THEN conjunct2,
         unfolded Let_def] a t
  show ?thesis by (simp add: hd_in_set)
qed

section \<open>The sync pass\<close>

lemma logged_post_added:
  "\<exists>evs. snd (notion_post E path payload (w @ [Log l m])) = w @ evs \<and> calls_at j evs = []"
proof -
  from notion_post_trace [of E path payload "w @ [Log l m]" j] obtain evs where
    "snd (notion_post E path payload (w @ [Log l m])) = (w @ [Log l m]) @ evs" "calls_at j evs = []"
    by blast
  then have "snd (notion_post E path payload (w @ [Log l m])) = w @ (Log l m # evs)
             \<and> calls_at j (Log l m # evs) = []"
    by simp
  then show ?thesis by blast
qed

lemma create_job_application_added:
  "\<exists>evs. snd (create_job_application E a b c d e f g w) = w @ evs \<and> calls_at j evs = []"
  unfolding create_job_application_def Let_def by (rule logged_post_added)

lemma add_network_contact_added:
  "\<exists>evs. snd (add_network_contact E a b c d e f w) = w @ evs \<and> calls_at j evs = []"
  unfolding add_network_contact_def Let_def by (rule logged_post_added)

lemma add_followup_added:
  "\<exists>evs. snd (add_followup E a b c d e w) = w @ evs \<and> calls_at j evs = []"
  unfolding add_followup_def Let_def by (rule logged_post_added)

lemma process_thread_command_added:
  "\<exists>evs. snd (process_thread_command E cmd w) = w @ evs \<and> calls_at j evs = []"
proof (cases cmd)
  case (JObj d)
  then show ?thesis
    using create_job_application_added add_network_contact_added add_followup_added
    by (simp add: process_thread_command_def Let_def)
qed (simp_all add: process_thread_command_def)

lemma sync_thread_not_due:
  assumes "\<not> due E now t"
  shows "sync_thread E now i t w =
           (case last_updated_of E t of
              Inl e \<Rightarrow> (Inr False, t,
                         w @ [Log WARNING (Invalid_last_updated (dict_get t ''thread_id'' JNull) e)])
            | Inr d \<Rightarrow>
                if truthy (dict_get t ''synced'' (JBool False)) then (Inr False, t, w)
                else (case d of Naive _ \<Rightarrow> (Inl TypeError, t, w) | Aware _ \<Rightarrow> (Inr False, t, w)))"
  using assms
  by (auto simp: sync_thread_def due_def Let_def split: sum.splits pydt.splits)

lemma sync_thread_no_id:
  assumes "due E now t" and "map_of t ''thread_id'' = None"
  shows "sync_thread E now i t w = (Inl (KeyError ''thread_id''), t, w)"
  using assms
  by (auto simp: sync_thread_def due_def Let_def split: sum.splits pydt.splits)

lemma sync_thread_due:
  assumes "due E now t" and "map_of t ''thread_id'' = Some tid"
  shows "sync_thread E now i t w =
           (let w1 = w @ [Log INFO (Thread_eligible tid (dict_get t ''last_updated'' JNull))]
            in case parse_content E t of
                 None \<Rightarrow> (Inr False, t, w1 @ [Log ERROR (Failed_to_parse_content tid JSONDecodeError)])
               | Some cmd \<Rightarrow>
                   if truthy cmd then
                     (case process_thread_command E cmd (w1 @ [Call i cmd]) of
                        (Inr _, w2) \<Rightarrow> (Inr True, dict_set t ''synced'' (JBool True), w2)
                      | (Inl e, w2) \<Rightarrow>
                          (Inr False, t, w2 @ [Log ERROR (Failed_to_process_thread tid e)]))
                   else (Inr False, t, w1 @ [Log INFO (No_valid_command tid)]))"
  using assms
  by (auto simp: sync_thread_def due_def Let_def split: sum.splits pydt.splits)

text \<open>What one turn adds to the trace: calls only at its own position, and only its command.\<close>

lemma sync_thread_added:
  "\<exists>evs. snd (snd (sync_thread E now i t w)) = w @ evs
     \<and> (\<forall>j. j \<noteq> i \<longrightarrow> calls_at j evs = [])
     \<and> calls_at i evs = (case dispatched_command E now t of Some c \<Rightarrow> [c] | None \<Rightarrow> [])"
proof (cases "due E now t")
  case False
  then have "dispatched_command E now t = None" by (simp add: dispatched_command_def)
  with False show ?thesis
    by (auto simp: sync_thread_not_due split: sum.splits pydt.splits)
next
  case True
  show ?thesis
  proof (cases "map_of t ''thread_id''")
    case None
    with True show ?thesis
      by (simp add: sync_thread_no_id dispatched_command_def)
  next
    case (Some tid)
    let ?w1 = "w @ [Log INFO (Thread_eligible tid (dict_get t ''last_updated'' JNull))]"
    show ?thesis
    proof (cases "parse_content E t")
      case None
      with True Some show ?thesis
        by (simp add: sync_thread_due dispatched_command_def)
    next
      case (Some cmd)
      note pc = this
      show ?thesis
      proof (cases "truthy cmd")
        case False
        with True \<open>map_of t ''thread_id'' = Some tid\<close> pc show ?thesis
          by (simp add: sync_thread_due dispatched_command_def)
      next
        case tr: True
        obtain r w2 where p: "process_thread_command E cmd (?w1 @ [Call i cmd]) = (r, w2)"
          by (cases "process_thread_command E cmd (?w1 @ [Call i cmd])") auto
        have dc: "dispatched_command E now t = Some cmd"
          using True \<open>map_of t ''thread_id'' = Some tid\<close> pc tr by (simp add: dispatched_command_def)
        have all: "\<forall>j. \<exists>evs. w2 = (?w1 @ [Call i cmd]) @ evs \<and> calls_at j evs = []"
          using process_thread_command_added [of E cmd "?w1 @ [Call i cmd]"] p by simp
        then obtain evs where e: "w2 = (?w1 @ [Call i cmd]) @ evs" by blast
        have none: "calls_at j evs = []" for j
          using all e by (metis same_append_eq)
        show ?thesis
        proof (cases r)
          case (Inl ex)
          let ?evs = "[Log INFO (Thread_eligible tid (dict_get t ''last_updated'' JNull)), Call i cmd]
                        @ evs @ [Log ERROR (Failed_to_process_thread tid ex)]"
          have "snd (snd (sync_thread E now i t w)) = w @ ?evs"
            using True \<open>map_of t ''thread_id'' = Some tid\<close> pc tr p Inl e
            by (simp add: sync_thread_due)
          moreover have "\<forall>j. j \<noteq> i \<longrightarrow> calls_at j ?evs = []"
            using none by (simp add: calls_at_append)
          moreover have "calls_at i ?evs = [cmd]"
            using none by (simp add: calls_at_append)
          ultimately show ?thesis using dc by (intro exI [of _ ?evs]) simp
        next
          case (Inr v)
          let ?evs = "[Log INFO (Thread_eligible tid (dict_get t ''last_updated'' JNull)), Call i cmd]
                        @ evs"
          have "snd (snd (sync_thread E now i t w)) = w @ ?evs"
            using True \<open>map_of t ''thread_id'' = Some tid\<close> pc tr p Inr e
            by (simp add: sync_thread_due)
          moreover have "\<forall>j. j \<noteq> i \<longrightarrow> calls_at j ?evs = []"
            using none by (simp add: calls_at_append)
          moreover have "calls_at i ?evs = [cmd]"
            using none by (simp add: calls_at_append)
          ultimately show ?thesis using dc by (intro exI [of _ ?evs]) simp
        qed
      qed
    qed
  qed
qed

lemma dispatched_command_due: "dispatched_command E now t = Some c \<Longrightarrow> due E now t"
  by (simp add: dispatched_command_def split: if_splits)

lemma sync_thread_added_tuple:
  assumes "sync_thread E now i t w = (b, t1, w1)"
  shows "\<exists>evs. w1 = w @ evs
     \<and> (\<forall>j. j \<noteq> i \<longrightarrow> calls_at j evs = [])
     \<and> calls_at i evs = (case dispatched_command E now t of Some c \<Rightarrow> [c] | None \<Rightarrow> [])"
  using sync_thread_added [of E now i t w] assms by simp

lemma sync_loop_added:
  assumes "sync_loop E now i ts any_synced w = (r, ts', any', w')"
  shows "\<exists>evs. w' = w @ evs
     \<and> (\<forall>j. calls_at j evs \<noteq> [] \<longrightarrow>
            i \<le> j \<and> j < i + length ts
            \<and> (\<exists>c. dispatched_command E now (ts ! (j - i)) = Some c \<and> calls_at j evs = [c]))"
  using assms
proof (induction ts arbitrary: i any_synced w r ts' any' w')
  case Nil
  then show ?case by simp
next
  case (Cons t ts)
  obtain b t1 w1 where st: "sync_thread E now i t w = (b, t1, w1)"
    by (cases "sync_thread E now i t w") auto
  from sync_thread_added_tuple [OF st] obtain e1 where
    e1: "w1 = w @ e1" "\<forall>j. j \<noteq> i \<longrightarrow> calls_at j e1 = []"
        "calls_at i e1 = (case dispatched_command E now t of Some c \<Rightarrow> [c] | None \<Rightarrow> [])"
    by blast
  have own: "calls_at j e1 \<noteq> [] \<longrightarrow>
               i \<le> j \<and> j < i + length (t # ts)
               \<and> (\<exists>c. dispatched_command E now ((t # ts) ! (j - i)) = Some c \<and> calls_at j e1 = [c])" for j
  proof (cases "j = i")
    case True
    with e1(3) show ?thesis by (auto split: option.splits)
  next
    case False
    with e1(2) show ?thesis by simp
  qed
  show ?case
  proof (cases b)
    case (Inl ex)
    with st Cons.prems have "w' = w1" by simp
    with e1(1) own show ?thesis by blast
  next
    case (Inr flag)
    obtain r2 ts2 any2 w2 where
      sl: "sync_loop E now (Suc i) ts (any_synced \<or> flag) w1 = (r2, ts2, any2, w2)"
      by (cases "sync_loop E now (Suc i) ts (any_synced \<or> flag) w1") auto
    with st Inr Cons.prems have w': "w' = w2" by simp
    from Cons.IH [OF sl] obtain e2 where
      e2: "w2 = w1 @ e2"
          "\<forall>j. calls_at j e2 \<noteq> [] \<longrightarrow>
             Suc i \<le> j \<and> j < Suc i + length ts
             \<and> (\<exists>c. dispatched_command E now (ts ! (j - Suc i)) = Some c \<and> calls_at j e2 = [c])"
      by blast
    have "calls_at j (e1 @ e2) \<noteq> [] \<longrightarrow>
            i \<le> j \<and> j < i + length (t # ts)
            \<and> (\<exists>c. dispatched_command E now ((t # ts) ! (j - i)) = Some c
                   \<and> calls_at j (e1 @ e2) = [c])" for j
    proof (cases "j = i")
      case True
      with e2(2) have "calls_at j e2 = []" by fastforce
      with own [of j] show ?thesis by (simp add: calls_at_append)
    next
      case False
      with e1(2) have n1: "calls_at j e1 = []" by simp
      show ?thesis
      proof
        assume "calls_at j (e1 @ e2) \<noteq> []"
        with n1 have ne: "calls_at j e2 \<noteq> []" by (simp add: calls_at_append)
        with e2(2) obtain c where
          c: "Suc i \<le> j" "j < Suc i + length ts"
             "dispatched_command E now (ts ! (j - Suc i)) = Some c" "calls_at j e2 = [c]"
          by blast
        from c(1) have "(t # ts) ! (j - i) = ts ! (j - Suc i)"
          by (simp add: nth_Cons split: nat.splits) (metis Suc_diff_le diff_Suc_Suc nat.inject)
        with c n1 show "i \<le> j \<and> j < i + length (t # ts)
            \<and> (\<exists>c. dispatched_command E now ((t # ts) ! (j - i)) = Some c
                   \<and> calls_at j (e1 @ e2) = [c])"
          by (simp add: calls_at_append)
      qed
    qed
    moreover have "w' = w @ (e1 @ e2)" using w' e2(1) e1(1) by simp
    ultimately show ?thesis by blast
  qed
qed

lemma sync_loop_length:
  assumes "sync_loop E now i ts any_synced w = (r, ts', any', w')"
  shows "length ts' = length ts"
  using assms
proof (induction ts arbitrary: i any_synced w r ts' any' w')
  case Nil
  then show ?case by simp
next
  case (Cons t ts)
  then show ?case
    by (auto split: prod.splits sum.splits)
qed

lemma sync_loop_append:
  "sync_loop E now i (xs @ ys) any_synced w =
     (case sync_loop E now i xs any_synced w of
        (Some e, xs', any1, w1) \<Rightarrow> (Some e, xs' @ ys, any1, w1)
      | (None, xs', any1, w1) \<Rightarrow>
          (case sync_loop E now (i + length xs) ys any1 w1 of
             (r, ys', any2, w2) \<Rightarrow> (r, xs' @ ys', any2, w2)))"
proof (induction xs arbitrary: i any_synced w)
  case Nil
  then show ?case by (simp split: prod.splits)
next
  case (Cons x xs)
  show ?case
    by (simp add: Cons.IH split: prod.splits sum.splits option.splits)
qed

lemma due_D:
  assumes "due E now t"
  shows "\<exists>lu. last_updated_of E t = Inr (Aware lu) \<and> two_hours \<le> now - lu
            \<and> \<not> truthy (dict_get t ''synced'' (JBool False))"
  using assms by (auto simp: due_def split: sum.splits pydt.splits)

lemma run_sync_trace:
  "\<exists>evs tail. snd (snd (run_sync E now fs path w)) = w @ evs @ tail
     \<and> (\<forall>j. calls_at j tail = [])
     \<and> (case fs path of
          None \<Rightarrow> evs = []
        | Some threads \<Rightarrow>
            (threads = [] \<and> evs = []) \<or>
            (threads \<noteq> [] \<and>
             w @ evs = snd (snd (snd (sync_loop E now 0 threads False w)))))"
proof (cases "fs path")
  case None
  then show ?thesis
    by (intro exI [of _ "[]"] exI [of _ "[Log INFO No_threads_file, Log INFO No_threads_to_sync]"])
       (simp add: run_sync_def load_project_threads_def)
next
  case (Some threads)
  show ?thesis
  proof (cases "threads = []")
    case True
    with Some show ?thesis
      by (intro exI [of _ "[]"] exI [of _ "[Log INFO No_threads_to_sync]"])
         (simp add: run_sync_def load_project_threads_def)
  next
    case False
    obtain r ts' a w' where sl: "sync_loop E now 0 threads False w = (r, ts', a, w')"
      by (cases "sync_loop E now 0 threads False w") auto
    from sync_loop_added [OF sl] obtain evs where evs: "w' = w @ evs" by blast
    have "\<exists>tail. snd (snd (run_sync E now fs path w)) = w @ evs @ tail \<and> (\<forall>j. calls_at j tail = [])"
    proof (cases r)
      case None
      show ?thesis
      proof (cases a)
        case True
        with Some False sl None evs show ?thesis
          by (intro exI [of _ "[Log INFO Sync_completed]"])
             (simp add: run_sync_def load_project_threads_def)
      next
        case f: False
        with Some False sl None evs show ?thesis
          by (intro exI [of _ "[Log INFO No_threads_synced]"])
             (simp add: run_sync_def load_project_threads_def)
      qed
    next
      case (Some e)
      with \<open>fs path = Some threads\<close> False sl evs show ?thesis
        by (intro exI [of _ "[]"]) (simp add: run_sync_def load_project_threads_def)
    qed
    with Some False sl evs show ?thesis by auto
  qed
qed

lemma run_sync_calls:
  assumes "calls_at i (added w (snd (snd (run_sync E now fs path w)))) \<noteq> []"
  shows "\<exists>threads c. fs path = Some threads \<and> i < length threads
           \<and> dispatched_command E now (threads ! i) = Some c
           \<and> calls_at i (added w (snd (snd (run_sync E now fs path w)))) = [c]"
proof -
  from run_sync_trace [of E now fs path w] obtain evs tail where
    t: "snd (snd (run_sync E now fs path w)) = w @ evs @ tail" "\<forall>j. calls_at j tail = []"
       "case fs path of
          None \<Rightarrow> evs = []
        | Some threads \<Rightarrow>
            (threads = [] \<and> evs = []) \<or>
            (threads \<noteq> [] \<and>
             w @ evs = snd (snd (snd (sync_loop E now 0 threads False w))))"
    by blast
  have c: "calls_at i (added w (snd (snd (run_sync E now fs path w)))) = calls_at i evs"
    using t(1,2) by (simp add: added_def calls_at_append)
  with assms have ne: "calls_at i evs \<noteq> []" by simp
  then have "evs \<noteq> []" by auto
  with t(3) obtain threads where
    th: "fs path = Some threads" "w @ evs = snd (snd (snd (sync_loop E now 0 threads False w)))"
    by (auto split: option.splits)
  obtain r ts' a w' where sl: "sync_loop E now 0 threads False w = (r, ts', a, w')"
    by (cases "sync_loop E now 0 threads False w") auto
  from sync_loop_added [OF sl] obtain evs' where
    e: "w' = w @ evs'"
       "\<forall>j. calls_at j evs' \<noteq> [] \<longrightarrow>
            0 \<le> j \<and> j < 0 + length threads
            \<and> (\<exists>c. dispatched_command E now (threads ! (j - 0)) = Some c \<and> calls_at j evs' = [c])"
    by blast
  from th(2) sl e(1) have "evs' = evs" by simp
  with e(2) ne obtain c where
    "i < length threads" "dispatched_command E now (threads ! i) = Some c" "calls_at i evs = [c]"
    by fastforce
  with th(1) c show ?thesis by simp
qed

text \<open>
  C1. In one pass of \<open>run_sync\<close> at clock reading \<open>now\<close>, \<open>process_thread_command\<close> is entered
  for the entry at position \<open>i\<close> of the queue only if that entry's \<open>synced\<close> value is false
  (in Python's sense; a missing key counts as \<open>False\<close>) and its \<open>last_updated\<close> parses to a
  zone-aware datetime at least two hours before \<open>now\<close>. So an entry whose \<open>synced\<close> value is
  true is not dispatched whatever its age, and an entry less than two hours old is not
  dispatched whatever its \<open>synced\<close> value.
\<close>

theorem dispatch_only_when_due:
  "(calls_at i (added w (snd (snd (run_sync E now fs path w)))) \<noteq> [] \<longrightarrow>
      (\<exists>threads lu. fs path = Some threads \<and> i < length threads
         \<and> \<not> truthy (dict_get (threads ! i) ''synced'' (JBool False))
         \<and> last_updated_of E (threads ! i) = Inr (Aware lu) \<and> two_hours \<le> now - lu))
   \<and> (\<forall>threads. fs path = Some threads \<and> i < length threads
         \<and> truthy (dict_get (threads ! i) ''synced'' (JBool False)) \<longrightarrow>
         calls_at i (added w (snd (snd (run_sync E now fs path w)))) = [])
   \<and> (\<forall>threads lu. fs path = Some threads \<and> i < length threads
         \<and> last_updated_of E (threads ! i) = Inr (Aware lu) \<and> now - lu < two_hours \<longrightarrow>
         calls_at i (added w (snd (snd (run_sync E now fs path w)))) = [])"
proof -
  have main: "\<exists>threads lu. fs path = Some threads \<and> i < length threads
         \<and> \<not> truthy (dict_get (threads ! i) ''synced'' (JBool False))
         \<and> last_updated_of E (threads ! i) = Inr (Aware lu) \<and> two_hours \<le> now - lu"
    if "calls_at i (added w (snd (snd (run_sync E now fs path w)))) \<noteq> []"
  proof -
    from run_sync_calls [OF that] obtain threads c where
      c: "fs path = Some threads" "i < length threads"
         "dispatched_command E now (threads ! i) = Some c"
      by blast
    from due_D [OF dispatched_command_due [OF c(3)]] c(1,2) show ?thesis by blast
  qed
  show ?thesis
  proof (intro conjI allI impI)
    assume "calls_at i (added w (snd (snd (run_sync E now fs path w)))) \<noteq> []"
    then show "\<exists>threads lu. fs path = Some threads \<and> i < length threads
         \<and> \<not> truthy (dict_get (threads ! i) ''synced'' (JBool False))
         \<and> last_updated_of E (threads ! i) = Inr (Aware lu) \<and> two_hours \<le> now - lu"
      by (rule main)
  next
    fix threads
    assume "fs path = Some threads \<and> i < length threads
         \<and> truthy (dict_get (threads ! i) ''synced'' (JBool False))"
    with main show "calls_at i (added w (snd (snd (run_sync E now fs path w)))) = []"
      by fastforce
  next
    fix threads lu
    assume "fs path = Some threads \<and> i < length threads
         \<and> last_updated_of E (threads ! i) = Inr (Aware lu) \<and> now - lu < two_hours"
    with main show "calls_at i (added w (snd (snd (run_sync E now fs path w)))) = []"
      by fastforce
  qed
qed

theorem dispatch_only_when_due_witness:
  "calls_at 0 (added [] (snd (snd (run_sync env_up ex_now
       (one_file default_threads_path [t_due, t_done, t_young]) default_threads_path [])))) \<noteq> []
   \<and> \<not> truthy (dict_get t_due ''synced'' (JBool False))
   \<and> last_updated_of env_up t_due = Inr (Aware 0) \<and> two_hours \<le> ex_now - 0
   \<and> truthy (dict_get t_done ''synced'' (JBool False))
   \<and> calls_at 1 (added [] (snd (snd (run_sync env_up ex_now
       (one_file default_threads_path [t_due, t_done, t_young]) default_threads_path [])))) = []
   \<and> last_updated_of env_up t_young = Inr (Aware 7200000000) \<and> ex_now - 7200000000 < two_hours
   \<and> calls_at 2 (added [] (snd (snd (run_sync env_up ex_now
       (one_file default_threads_path [t_due, t_done, t_young]) default_threads_path [])))) = []"
proof -
  let ?fs = "one_file default_threads_path [t_due, t_done, t_young]"
  have f: "?fs default_threads_path = Some [t_due, t_done, t_young]"
    by (simp add: one_file_def)
  have c0: "calls_at 0 (added [] (snd (snd (run_sync env_up ex_now ?fs default_threads_path []))))
              \<noteq> []"
    by code_simp
  have d0: "\<not> truthy (dict_get t_due ''synced'' (JBool False))" by code_simp
  have l0: "last_updated_of env_up t_due = Inr (Aware 0)" by code_simp
  have a0: "two_hours \<le> ex_now - 0" by code_simp
  have d1: "truthy (dict_get t_done ''synced'' (JBool False))" by code_simp
  have l2: "last_updated_of env_up t_young = Inr (Aware 7200000000)" by code_simp
  have a2: "ex_now - 7200000000 < two_hours" by code_simp
  note T1 = dispatch_only_when_due [of 1 "[]" env_up ex_now ?fs default_threads_path]
  note T2 = dispatch_only_when_due [of 2 "[]" env_up ex_now ?fs default_threads_path]
  have c1: "calls_at 1 (added [] (snd (snd (run_sync env_up ex_now ?fs default_threads_path []))))
              = []"
    using T1 f d1 by simp
  have c2: "calls_at 2 (added [] (snd (snd (run_sync env_up ex_now ?fs default_threads_path []))))
              = []"
    using T2 f l2 a2 by simp
  from c0 d0 l0 a0 d1 c1 l2 a2 c2 show ?thesis by (intro conjI)
qed

lemma calls_at_mem: "Call i c \<in> set w \<Longrightarrow> calls_at i w \<noteq> []"
  by (induction i w rule: calls_at.induct) auto

text \<open>On a network that accepts every request, the first attempt returns.\<close>

lemma attempts_loop_accepted:
  assumes "lower method \<in> {''post'', ''patch'', ''get''}"
    and "\<forall>n q. \<exists>r v. send E n q = Inr r \<and> ok r \<and> json_of r = Inr v"
  shows "\<exists>v. attempts_loop E method url headers payload params backoff (a # as) w =
           (Some (Inr v), w @ [Req (request_of (lower method) url headers payload params)])"
proof -
  let ?q = "request_of (lower method) url headers payload params"
  from assms(2) obtain r v where "send E (nreq w) ?q = Inr r" "ok r" "json_of r = Inr v"
    by blast
  from attempt_once_succeeds [OF assms(1) this] show ?thesis by simp
qed

lemma notion_post_accepted:
  assumes "\<forall>n q. \<exists>r v. send E n q = Inr r \<and> ok r \<and> json_of r = Inr v"
  shows "\<exists>v. fst (notion_post E path payload w) = Inr v"
proof -
  have sup: "lower ''post'' \<in> {''post'', ''patch'', ''get''}" by (simp add: lower_post)
  from attempts_loop_accepted [OF sup assms] obtain v where
    "attempts_loop E ''post'' (NOTION_API @ path) (HEADERS E) (Some payload) None 1 (1 # [2, 3]) w =
       (Some (Inr v),
        w @ [Req (request_of (lower ''post'') (NOTION_API @ path) (HEADERS E) (Some payload) None)])"
    by blast
  then have "fst (notion_post E path payload w) = Inr v"
    by (simp only: notion_post_def http_request_with_retries_def upto_1_3) simp
  then show ?thesis by blast
qed

lemma process_thread_command_accepted:
  assumes "\<forall>n q. \<exists>r v. send E n q = Inr r \<and> ok r \<and> json_of r = Inr v"
    and "dict_get d ''action'' JNull
           \<in> {JStr ''create_application'', JStr ''add_followup'', JStr ''add_network_contact''}"
  shows "\<exists>v. fst (process_thread_command E (JObj d) w) = Inr v"
proof -
  note post = notion_post_accepted [OF assms(1)]
  consider (c) "dict_get d ''action'' JNull = JStr ''create_application''"
    | (f) "dict_get d ''action'' JNull = JStr ''add_followup''"
    | (n) "dict_get d ''action'' JNull = JStr ''add_network_contact''"
    using assms(2) by blast
  then show ?thesis
  proof cases
    case c
    then show ?thesis
      by (simp add: process_thread_command_def create_job_application_def Let_def post)
  next
    case f
    then show ?thesis
      by (simp add: process_thread_command_def add_followup_def Let_def post)
  next
    case n
    then show ?thesis
      by (simp add: process_thread_command_def add_network_contact_def Let_def post)
  qed
qed

text \<open>The turns that raise are those of the entries that \<open>aborts_pass\<close> describes.\<close>

lemma sync_thread_aborts:
  assumes "aborts_pass E now t"
  shows "\<exists>e. fst (sync_thread E now i t w) = Inl e"
  using assms
  by (auto simp: sync_thread_def aborts_pass_def Let_def split: sum.splits pydt.splits)

lemma sync_thread_no_abort:
  assumes "\<not> aborts_pass E now t"
  shows "\<exists>b. fst (sync_thread E now i t w) = Inr b"
proof (cases "due E now t")
  case False
  with assms show ?thesis
    by (auto simp: sync_thread_not_due aborts_pass_def due_def split: sum.splits pydt.splits)
next
  case True
  with assms obtain tid where "map_of t ''thread_id'' = Some tid"
    by (auto simp: aborts_pass_def due_def split: sum.splits pydt.splits)
  with True show ?thesis
    by (auto simp: sync_thread_due Let_def split: option.splits prod.splits sum.splits)
qed

lemma sync_loop_no_abort:
  assumes "\<forall>t \<in> set ts. \<not> aborts_pass E now t"
  shows "fst (sync_loop E now i ts a w) = None"
  using assms
proof (induction ts arbitrary: i a w)
  case Nil
  show ?case by simp
next
  case (Cons t ts)
  from Cons.prems have "\<not> aborts_pass E now t" by simp
  from sync_thread_no_abort [OF this, of i w] obtain b t' w' where
    st: "sync_thread E now i t w = (Inr b, t', w')"
    by (metis prod.collapse)
  from Cons.prems have "\<forall>t \<in> set ts. \<not> aborts_pass E now t" by simp
  from Cons.IH [OF this, of "Suc i" "a \<or> b" w'] obtain ts2 a2 w2 where
    "sync_loop E now (Suc i) ts (a \<or> b) w' = (None, ts2, a2, w2)"
    by (metis prod.collapse)
  with st show ?case by simp
qed

lemma run_sync_no_abort:
  assumes "fs path = Some threads" and "\<forall>t \<in> set threads. \<not> aborts_pass E now t"
  shows "fst (run_sync E now fs path w) = Inr ()"
proof (cases "threads = []")
  case True
  with assms(1) show ?thesis by (simp add: run_sync_def load_project_threads_def)
next
  case False
  obtain r ts' a w' where sl: "sync_loop E now 0 threads False w = (r, ts', a, w')"
    by (cases "sync_loop E now 0 threads False w") auto
  with sync_loop_no_abort [OF assms(2), of 0 False w] have "r = None" by simp
  with assms(1) False sl show ?thesis
    by (simp add: run_sync_def load_project_threads_def)
qed

text \<open>
  An unsynced entry whose date has no zone ends the pass with \<open>TypeError\<close>, before anything
  is dispatched or logged.
\<close>

lemma naive_date_aborts_pass:
  "aborts_pass env_up ex_now t_naive
   \<and> fst (run_sync env_up ex_now (one_file default_threads_path [t_naive])
             default_threads_path []) = Inl TypeError
   \<and> snd (snd (run_sync env_up ex_now (one_file default_threads_path [t_naive])
                  default_threads_path [])) = []"
  by code_simp

lemma sync_loop_any:
  assumes "sync_loop E now i ts any_synced w = (r, ts', any', w')" and "any_synced"
  shows "any'"
  using assms
proof (induction ts arbitrary: i any_synced w r ts' any' w')
  case Nil
  then show ?case by simp
next
  case (Cons t ts)
  obtain b t1 w1 where st: "sync_thread E now i t w = (b, t1, w1)"
    by (cases "sync_thread E now i t w") auto
  show ?case
  proof (cases b)
    case (Inl e)
    with st Cons.prems show ?thesis by simp
  next
    case (Inr flag)
    obtain r2 ts2 any2 w2 where
      sl: "sync_loop E now (Suc i) ts (any_synced \<or> flag) w1 = (r2, ts2, any2, w2)"
      by (cases "sync_loop E now (Suc i) ts (any_synced \<or> flag) w1") auto
    with st Inr Cons.prems have "any' = any2" by simp
    moreover from Cons.IH [OF sl] Cons.prems(2) have any2 by simp
    ultimately show ?thesis by simp
  qed
qed

text \<open>In a pass that runs to its end, the turn of the entry at position \<open>k\<close>.\<close>

lemma sync_loop_at:
  assumes "sync_loop E now i ts any_synced w = (None, ts', any', w')" and "k < length ts"
  shows "\<exists>b wt pre post. sync_thread E now (i + k) (ts ! k) (w @ pre) = (Inr b, ts' ! k, wt)
           \<and> (b \<longrightarrow> any') \<and> w' = wt @ post"
  using assms
proof (induction ts arbitrary: i any_synced w ts' any' w' k)
  case Nil
  then show ?case by simp
next
  case (Cons t ts)
  obtain b t1 w1 where st: "sync_thread E now i t w = (b, t1, w1)"
    by (cases "sync_thread E now i t w") auto
  show ?case
  proof (cases b)
    case (Inl e)
    with st Cons.prems show ?thesis by simp
  next
    case (Inr flag)
    obtain r2 ts2 any2 w2 where
      sl: "sync_loop E now (Suc i) ts (any_synced \<or> flag) w1 = (r2, ts2, any2, w2)"
      by (cases "sync_loop E now (Suc i) ts (any_synced \<or> flag) w1") auto
    with st Inr Cons.prems have res: "r2 = None" "ts' = t1 # ts2" "any' = any2" "w' = w2"
      by simp_all
    show ?thesis
    proof (cases k)
      case 0
      from sync_loop_added [OF sl] obtain e2 where "w2 = w1 @ e2" by blast
      moreover have "flag \<longrightarrow> any2" using sync_loop_any [OF sl] by simp
      ultimately have "sync_thread E now (i + 0) ((t # ts) ! 0) (w @ []) = (Inr flag, (t1 # ts2) ! 0, w1)
                 \<and> (flag \<longrightarrow> any') \<and> w' = w1 @ e2"
        using st Inr res by simp
      with 0 res show ?thesis by blast
    next
      case (Suc k')
      with Cons.prems have k': "k' < length ts" by simp
      from sync_thread_added_tuple [OF st] obtain e1 where e1: "w1 = w @ e1" by blast
      from Cons.IH [OF sl [unfolded res(1)] k'] obtain b' wt pre post where
        "sync_thread E now (Suc i + k') (ts ! k') (w1 @ pre) = (Inr b', ts2 ! k', wt)"
        "b' \<longrightarrow> any2" "w2 = wt @ post"
        by blast
      then have "sync_thread E now (i + k) ((t # ts) ! k) (w @ (e1 @ pre)) = (Inr b', ts' ! k, wt)
                 \<and> (b' \<longrightarrow> any') \<and> w' = wt @ post"
        using Suc res e1 by simp
      then show ?thesis by blast
    qed
  qed
qed

lemma run_sync_completed:
  assumes "fs path = Some threads" and "i < length threads"
    and "run_sync E now fs path w = (Inr (), fs', w')"
  shows "\<exists>b wt pre post ts'.
           sync_thread E now i (threads ! i) (w @ pre) = (Inr b, ts' ! i, wt)
           \<and> w' = wt @ post \<and> length ts' = length threads
           \<and> (b \<longrightarrow> fs' = fs(default_threads_path \<mapsto> ts'))"
proof -
  from assms(2) have ne: "threads \<noteq> []" by auto
  obtain r ts' a wl where sl: "sync_loop E now 0 threads False w = (r, ts', a, wl)"
    by (cases "sync_loop E now 0 threads False w") auto
  have r: "r = None"
    using assms(1,3) ne sl
    by (cases r) (simp_all add: run_sync_def load_project_threads_def)
  from sync_loop_at [OF sl [unfolded r] assms(2)] obtain b wt pre post where
    at: "sync_thread E now i (threads ! i) (w @ pre) = (Inr b, ts' ! i, wt)"
        "b \<longrightarrow> a" "wl = wt @ post"
    by auto
  have len: "length ts' = length threads" by (rule sync_loop_length [OF sl])
  show ?thesis
  proof (cases a)
    case True
    with assms(1,3) ne sl r have
      "fs' = fs(default_threads_path \<mapsto> ts')" "w' = wl @ [Log INFO Sync_completed]"
      by (simp_all add: run_sync_def load_project_threads_def write_project_threads_def)
    with at len have "sync_thread E now i (threads ! i) (w @ pre) = (Inr b, ts' ! i, wt)
           \<and> w' = wt @ (post @ [Log INFO Sync_completed]) \<and> length ts' = length threads
           \<and> (b \<longrightarrow> fs' = fs(default_threads_path \<mapsto> ts'))"
      by simp
    then show ?thesis by blast
  next
    case False
    with assms(1,3) ne sl r have "w' = wl @ [Log INFO No_threads_synced]"
      by (simp_all add: run_sync_def load_project_threads_def)
    with at len False have "sync_thread E now i (threads ! i) (w @ pre) = (Inr b, ts' ! i, wt)
           \<and> w' = wt @ (post @ [Log INFO No_threads_synced]) \<and> length ts' = length threads
           \<and> (b \<longrightarrow> fs' = fs(default_threads_path \<mapsto> ts'))"
      by simp
    then show ?thesis by blast
  qed
qed

text \<open>
  C2 (as amended). Take the entry at position \<open>i\<close> of the queue: not synced, last updated at
  a zone-aware date two hours or more before \<open>now\<close>, with a \<open>thread_id\<close>, and with a content
  string that parses to a non-empty JSON object with a known action. Let the API accept every
  request (each is answered by a response that is \<open>ok\<close> and has a body that decodes), and
  let no entry of the queue be one at which the loop raises (an unsynced entry whose date has
  no zone, an unsynced entry two hours old or more without \<open>thread_id\<close>). Then the pass runs
  to its end, dispatches the entry exactly once, sets its \<open>synced\<close> flag to \<open>True\<close> and
  persists the whole list; and any later pass that reads the persisted list, at any time and
  on any network, dispatches that entry zero times.
\<close>

theorem due_entry_dispatched_once:
  assumes "fs path = Some threads" and "i < length threads"
    and "\<not> truthy (dict_get (threads ! i) ''synced'' (JBool False))"
    and "last_updated_of E (threads ! i) = Inr (Aware lu)" and "two_hours \<le> now - lu"
    and "map_of (threads ! i) ''thread_id'' = Some tid"
    and "map_of (threads ! i) ''content'' = Some (JStr s)" and "strip_nonempty s"
    and "json_loads E s = Some (JObj d)" and "d \<noteq> []"
    and "dict_get d ''action'' JNull
           \<in> {JStr ''create_application'', JStr ''add_followup'', JStr ''add_network_contact''}"
    and "\<forall>n q. \<exists>r v. send E n q = Inr r \<and> ok r \<and> json_of r = Inr v"
    and "\<forall>t \<in> set threads. \<not> aborts_pass E now t"
  shows "fst (run_sync E now fs path w) = Inr ()
       \<and> calls_at i (added w (snd (snd (run_sync E now fs path w)))) = [JObj d]
       \<and> (\<exists>p threads'. fst (snd (run_sync E now fs path w)) p = Some threads'
            \<and> length threads' = length threads
            \<and> threads' ! i = dict_set (threads ! i) ''synced'' (JBool True)
            \<and> dict_get (threads' ! i) ''synced'' (JBool False) = JBool True
            \<and> (\<forall>E2 now2 fs2 p2 w2. fs2 p2 = Some threads' \<longrightarrow>
                  calls_at i (added w2 (snd (snd (run_sync E2 now2 fs2 p2 w2)))) = []))"
proof -
  let ?t = "threads ! i"
  define fs' where "fs' = fst (snd (run_sync E now fs path w))"
  define w' where "w' = snd (snd (run_sync E now fs path w))"
  have fin: "fst (run_sync E now fs path w) = Inr ()"
    by (rule run_sync_no_abort [where fs = fs and path = path, OF assms(1,13)])
  then have rs: "run_sync E now fs path w = (Inr (), fs', w')"
    unfolding fs'_def w'_def by (metis prod.collapse)
  have due: "due E now ?t" using assms(3,4,5) by (simp add: due_def)
  have pc: "parse_content E ?t = Some (JObj d)"
    using assms(7,8,9) by (simp add: parse_content_def dict_get_def)
  have tr: "truthy (JObj d)" using assms(10) by simp
  have dc: "dispatched_command E now ?t = Some (JObj d)"
    using due assms(6) pc tr by (simp add: dispatched_command_def)
  from run_sync_completed [OF assms(1,2) rs] obtain b wt pre post ts' where
    at: "sync_thread E now i ?t (w @ pre) = (Inr b, ts' ! i, wt)"
        "w' = wt @ post" "length ts' = length threads"
        "b \<longrightarrow> fs' = fs(default_threads_path \<mapsto> ts')"
    by blast
  let ?w1 = "(w @ pre) @ [Log INFO (Thread_eligible tid (dict_get ?t ''last_updated'' JNull))]"
  obtain r w2 where p: "process_thread_command E (JObj d) (?w1 @ [Call i (JObj d)]) = (r, w2)"
    by (cases "process_thread_command E (JObj d) (?w1 @ [Call i (JObj d)])") auto
  from process_thread_command_added [of E "JObj d" "?w1 @ [Call i (JObj d)]" i] p obtain evs where
    evs: "w2 = (?w1 @ [Call i (JObj d)]) @ evs"
    by auto
  from process_thread_command_accepted [OF assms(12,11), of "?w1 @ [Call i (JObj d)]"] p
  obtain v where r: "r = Inr v" by auto
  have st: "sync_thread E now i ?t (w @ pre) = (Inr True, dict_set ?t ''synced'' (JBool True), w2)"
    using due assms(6) pc tr p r by (simp add: sync_thread_due)
  with at(1) have b: "b" and t': "ts' ! i = dict_set ?t ''synced'' (JBool True)" and wt: "wt = w2"
    by auto
  from b at(4) have fs': "fs' default_threads_path = Some ts'" by simp
  have "Call i (JObj d) \<in> set (added w w')"
    using at(2) wt evs by (simp add: added_def)
  then have ne: "calls_at i (added w w') \<noteq> []"
    by (rule calls_at_mem)
  from run_sync_calls [of i w E now fs path] ne obtain ths c where
    "fs path = Some ths" "dispatched_command E now (ths ! i) = Some c" "calls_at i (added w w') = [c]"
    unfolding w'_def by auto
  with assms(1) dc have once: "calls_at i (added w w') = [JObj d]" by simp
  have again: "calls_at i (added w2' (snd (snd (run_sync E2 now2 fs2 p2 w2')))) = []"
    if "fs2 p2 = Some ts'" for E2 now2 fs2 p2 w2'
  proof (rule ccontr)
    assume "calls_at i (added w2' (snd (snd (run_sync E2 now2 fs2 p2 w2')))) \<noteq> []"
    from run_sync_calls [OF this] that obtain c where
      "dispatched_command E2 now2 (ts' ! i) = Some c"
      by auto
    from due_D [OF dispatched_command_due [OF this]] t' show False
      by (simp add: dict_get_dict_set_same)
  qed
  have "fs' default_threads_path = Some ts' \<and> length ts' = length threads
            \<and> ts' ! i = dict_set ?t ''synced'' (JBool True)
            \<and> dict_get (ts' ! i) ''synced'' (JBool False) = JBool True
            \<and> (\<forall>E2 now2 fs2 p2 w2. fs2 p2 = Some ts' \<longrightarrow>
                  calls_at i (added w2 (snd (snd (run_sync E2 now2 fs2 p2 w2)))) = [])"
    using fs' at(3) t' again by (simp add: dict_get_dict_set_same)
  then have "\<exists>p threads'. fs' p = Some threads'
            \<and> length threads' = length threads
            \<and> threads' ! i = dict_set ?t ''synced'' (JBool True)
            \<and> dict_get (threads' ! i) ''synced'' (JBool False) = JBool True
            \<and> (\<forall>E2 now2 fs2 p2 w2. fs2 p2 = Some threads' \<longrightarrow>
                  calls_at i (added w2 (snd (snd (run_sync E2 now2 fs2 p2 w2)))) = [])"
    by blast
  with fin once show ?thesis unfolding fs'_def w'_def by blast
qed

theorem due_entry_dispatched_once_witness:
  "one_file default_threads_path [t_done, t_due] default_threads_path = Some [t_done, t_due]
   \<and> (1::nat) < length [t_done, t_due]
   \<and> \<not> truthy (dict_get ([t_done, t_due] ! 1) ''synced'' (JBool False))
   \<and> last_updated_of env_up ([t_done, t_due] ! 1) = Inr (Aware 0)
   \<and> two_hours \<le> ex_now - 0
   \<and> map_of ([t_done, t_due] ! 1) ''thread_id'' = Some (JStr ''t1'')
   \<and> map_of ([t_done, t_due] ! 1) ''content'' = Some (JStr ''F'')
   \<and> strip_nonempty ''F''
   \<and> json_loads env_up ''F''
        = Some (JObj [(''action'', JStr ''add_followup''), (''task'', JStr ''ping recruiter'')])
   \<and> (\<forall>n q. \<exists>r v. send env_up n q = Inr r \<and> ok r \<and> json_of r = Inr v)
   \<and> \<not> aborts_pass env_up ex_now t_done
   \<and> \<not> aborts_pass env_up ex_now t_due
   \<and> fst (run_sync env_up ex_now (one_file default_threads_path [t_done, t_due])
             default_threads_path []) = Inr ()
   \<and> calls_at 1 (added [] (snd (snd
        (run_sync env_up ex_now (one_file default_threads_path [t_done, t_due])
           default_threads_path []))))
        = [JObj [(''action'', JStr ''add_followup''), (''task'', JStr ''ping recruiter'')]]
   \<and> (\<exists>p threads'.
         fst (snd (run_sync env_up ex_now (one_file default_threads_path [t_done, t_due])
                     default_threads_path [])) p = Some threads'
         \<and> dict_get (threads' ! 1) ''synced'' (JBool False) = JBool True
         \<and> calls_at 1 (added [] (snd (snd
              (run_sync env_up (ex_now + 1) (one_file p threads') p [])))) = [])"
proof -
  let ?fs = "one_file default_threads_path [t_done, t_due]"
  let ?d = "[(''action'', JStr ''add_followup''), (''task'', JStr ''ping recruiter'')]"
  let ?run = "run_sync env_up ex_now ?fs default_threads_path []"
  have h1: "?fs default_threads_path = Some [t_done, t_due]" by (simp add: one_file_def)
  have h2: "(1::nat) < length [t_done, t_due]" by simp
  have h3: "\<not> truthy (dict_get ([t_done, t_due] ! 1) ''synced'' (JBool False))" by code_simp
  have h4: "last_updated_of env_up ([t_done, t_due] ! 1) = Inr (Aware 0)" by code_simp
  have h5: "two_hours \<le> ex_now - 0" by code_simp
  have h6: "map_of ([t_done, t_due] ! 1) ''thread_id'' = Some (JStr ''t1'')" by code_simp
  have h7: "map_of ([t_done, t_due] ! 1) ''content'' = Some (JStr ''F'')" by code_simp
  have h8: "strip_nonempty ''F''" by code_simp
  have h9: "json_loads env_up ''F'' = Some (JObj ?d)" by code_simp
  have h10: "?d \<noteq> []" by simp
  have h11: "dict_get ?d ''action'' JNull
           \<in> {JStr ''create_application'', JStr ''add_followup'', JStr ''add_network_contact''}"
    by (simp add: dict_get_def)
  have h12: "\<forall>n q. \<exists>r v. send env_up n q = Inr r \<and> ok r \<and> json_of r = Inr v"
    by (simp add: env_up_def)
  have a1: "\<not> aborts_pass env_up ex_now t_done" by code_simp
  have a2: "\<not> aborts_pass env_up ex_now t_due" by code_simp
  from a1 a2 have h13: "\<forall>t \<in> set [t_done, t_due]. \<not> aborts_pass env_up ex_now t" by simp
  from due_entry_dispatched_once
         [where fs = ?fs and path = default_threads_path and w = "[]",
          OF h1 h2 h3 h4 h5 h6 h7 h8 h9 h10 h11 h12 h13]
  obtain p threads' where
    c: "fst ?run = Inr ()"
       "calls_at 1 (added [] (snd (snd ?run))) = [JObj ?d]"
       "fst (snd ?run) p = Some threads'"
       "dict_get (threads' ! 1) ''synced'' (JBool False) = JBool True"
       "\<forall>E2 now2 fs2 p2 w2. fs2 p2 = Some threads' \<longrightarrow>
          calls_at 1 (added w2 (snd (snd (run_sync E2 now2 fs2 p2 w2)))) = []"
    by blast
  have "one_file p threads' p = Some threads'" by (simp add: one_file_def)
  with c(5) have
    "calls_at 1 (added [] (snd (snd (run_sync env_up (ex_now + 1) (one_file p threads') p [])))) = []"
    by blast
  with c(3,4) have e: "\<exists>p threads'. fst (snd ?run) p = Some threads'
         \<and> dict_get (threads' ! 1) ''synced'' (JBool False) = JBool True
         \<and> calls_at 1 (added [] (snd (snd
              (run_sync env_up (ex_now + 1) (one_file p threads') p [])))) = []"
    by blast
  from h1 h2 h3 h4 h5 h6 h7 h8 h9 h12 a1 a2 c(1) c(2) e show ?thesis by (intro conjI)
qed

theorem due_entry_dispatched_once_counterexample:
  "\<not> truthy (dict_get t_due ''synced'' (JBool False))
   \<and> last_updated_of env_down t_due = Inr (Aware 0)
   \<and> two_hours \<le> ex_now - 0
   \<and> parse_content env_down t_due
        = Some (JObj [(''action'', JStr ''add_followup''), (''task'', JStr ''ping recruiter'')])
   \<and> fst (run_sync env_down ex_now (one_file default_threads_path [t_due]) default_threads_path [])
        = Inr ()
   \<and> calls_at 0 (snd (snd
        (run_sync env_down ex_now (one_file default_threads_path [t_due]) default_threads_path [])))
        = [JObj [(''action'', JStr ''add_followup''), (''task'', JStr ''ping recruiter'')]]
   \<and> fst (snd (run_sync env_down ex_now (one_file default_threads_path [t_due])
                  default_threads_path [])) default_threads_path = Some [t_due]
   \<and> calls_at 0 (snd (snd
        (run_sync env_down (ex_now + 1)
           (fst (snd (run_sync env_down ex_now (one_file default_threads_path [t_due])
                        default_threads_path [])))
           default_threads_path [])))
        = [JObj [(''action'', JStr ''add_followup''), (''task'', JStr ''ping recruiter'')]]"
  by code_simp

lemma dispatched_command_later:
  assumes "dispatched_command E now t = Some c" and "now \<le> now2"
  shows "dispatched_command E now2 t = Some c"
proof -
  from due_D [OF dispatched_command_due [OF assms(1)]] obtain lu where
    "last_updated_of E t = Inr (Aware lu)" "two_hours \<le> now - lu"
    "\<not> truthy (dict_get t ''synced'' (JBool False))"
    by blast
  with assms(2) have "due E now2 t" by (simp add: due_def)
  moreover have "due E now t" by (rule dispatched_command_due [OF assms(1)])
  ultimately show ?thesis using assms(1) by (simp add: dispatched_command_def)
qed

text \<open>
  C9. Let the queue be \<open>pre @ t # post\<close> where \<open>t\<close> passes the test of line 317 and has no
  \<open>thread_id\<close> key. Then \<open>run_sync\<close> ends with an uncaught exception and writes no file. When
  the loop gets through \<open>pre\<close> without an uncaught exception of its own, the exception is
  \<open>KeyError('thread_id')\<close> and the trace is the one left by \<open>pre\<close>: nothing of \<open>post\<close> is
  inspected. Every entry dispatched in the pass lies in \<open>pre\<close>, is dispatched once, still has
  a false \<open>synced\<close> value in the stored file, and still qualifies for dispatch, with the same
  command, at any later clock reading.
\<close>

theorem missing_thread_id_aborts_pass:
  assumes "fs path = Some (pre @ t # post)" and "due E now t" and "map_of t ''thread_id'' = None"
  shows "(\<exists>e. fst (run_sync E now fs path w) = Inl e)
       \<and> fst (snd (run_sync E now fs path w)) = fs
       \<and> (fst (sync_loop E now 0 pre False w) = None \<longrightarrow>
            run_sync E now fs path w =
              (Inl (KeyError ''thread_id''), fs, snd (snd (snd (sync_loop E now 0 pre False w)))))
       \<and> (\<forall>i. calls_at i (added w (snd (snd (run_sync E now fs path w)))) \<noteq> [] \<longrightarrow>
            (\<exists>ths c. fst (snd (run_sync E now fs path w)) path = Some ths \<and> i < length pre
               \<and> calls_at i (added w (snd (snd (run_sync E now fs path w)))) = [c]
               \<and> \<not> truthy (dict_get (ths ! i) ''synced'' (JBool False))
               \<and> (\<forall>now2. now \<le> now2 \<longrightarrow> dispatched_command E now2 (ths ! i) = Some c)))"
proof -
  obtain r1 pre' a1 w1 where p: "sync_loop E now 0 pre False w = (r1, pre', a1, w1)"
    by (cases "sync_loop E now 0 pre False w") auto
  define e' where "e' = (case r1 of Some e \<Rightarrow> e | None \<Rightarrow> KeyError ''thread_id'')"
  have t: "sync_loop E now (length pre) (t # post) a1 w1 = (Some (KeyError ''thread_id''), t # post, a1, w1)"
    using assms(2,3) by (simp add: sync_thread_no_id)
  have whole: "\<exists>ts'. sync_loop E now 0 (pre @ t # post) False w = (Some e', ts', a1, w1)"
    using p t by (cases r1) (simp_all add: sync_loop_append e'_def)
  have run: "run_sync E now fs path w = (Inl e', fs, w1)"
    using assms(1) whole by (auto simp: run_sync_def load_project_threads_def)
  from sync_loop_added [OF p] obtain evs where
    evs: "w1 = w @ evs"
         "\<forall>j. calls_at j evs \<noteq> [] \<longrightarrow>
            0 \<le> j \<and> j < 0 + length pre
            \<and> (\<exists>c. dispatched_command E now (pre ! (j - 0)) = Some c \<and> calls_at j evs = [c])"
    by blast
  have calls: "\<exists>ths c. fst (snd (run_sync E now fs path w)) path = Some ths \<and> i < length pre
               \<and> calls_at i (added w (snd (snd (run_sync E now fs path w)))) = [c]
               \<and> \<not> truthy (dict_get (ths ! i) ''synced'' (JBool False))
               \<and> (\<forall>now2. now \<le> now2 \<longrightarrow> dispatched_command E now2 (ths ! i) = Some c)"
    if ne: "calls_at i (added w (snd (snd (run_sync E now fs path w)))) \<noteq> []" for i
  proof -
    have a: "added w (snd (snd (run_sync E now fs path w))) = evs"
      using run evs(1) by (simp add: added_def)
    with ne evs(2) obtain c where
      c: "i < length pre" "dispatched_command E now (pre ! i) = Some c" "calls_at i evs = [c]"
      by fastforce
    have nth: "(pre @ t # post) ! i = pre ! i" using c(1) by (simp add: nth_append)
    from due_D [OF dispatched_command_due [OF c(2)]]
    have "\<not> truthy (dict_get (pre ! i) ''synced'' (JBool False))" by blast
    moreover have "\<forall>now2. now \<le> now2 \<longrightarrow> dispatched_command E now2 (pre ! i) = Some c"
      using dispatched_command_later [OF c(2)] by blast
    ultimately show ?thesis
      using run assms(1) a c(1,3) nth by simp
  qed
  show ?thesis
  proof (intro conjI allI impI)
    show "\<exists>e. fst (run_sync E now fs path w) = Inl e" using run by simp
    show "fst (snd (run_sync E now fs path w)) = fs" using run by simp
  next
    assume "fst (sync_loop E now 0 pre False w) = None"
    with p have "e' = KeyError ''thread_id''" by (simp add: e'_def)
    with run p show "run_sync E now fs path w =
              (Inl (KeyError ''thread_id''), fs, snd (snd (snd (sync_loop E now 0 pre False w))))"
      by simp
  next
    fix i
    assume "calls_at i (added w (snd (snd (run_sync E now fs path w)))) \<noteq> []"
    then show "\<exists>ths c. fst (snd (run_sync E now fs path w)) path = Some ths \<and> i < length pre
               \<and> calls_at i (added w (snd (snd (run_sync E now fs path w)))) = [c]
               \<and> \<not> truthy (dict_get (ths ! i) ''synced'' (JBool False))
               \<and> (\<forall>now2. now \<le> now2 \<longrightarrow> dispatched_command E now2 (ths ! i) = Some c)"
      by (rule calls)
  qed
qed

theorem missing_thread_id_aborts_pass_witness:
  "one_file default_threads_path [t_due, t_noid, t_young] default_threads_path
     = Some ([t_due] @ t_noid # [t_young])
   \<and> due env_up ex_now t_noid
   \<and> map_of t_noid ''thread_id'' = None
   \<and> fst (sync_loop env_up ex_now 0 [t_due] False []) = None
   \<and> fst (run_sync env_up ex_now (one_file default_threads_path [t_due, t_noid, t_young])
             default_threads_path []) = Inl (KeyError ''thread_id'')
   \<and> fst (snd (run_sync env_up ex_now (one_file default_threads_path [t_due, t_noid, t_young])
             default_threads_path [])) default_threads_path = Some [t_due, t_noid, t_young]
   \<and> calls_at 0 (added [] (snd (snd (run_sync env_up ex_now
        (one_file default_threads_path [t_due, t_noid, t_young]) default_threads_path []))))
       = [JObj [(''action'', JStr ''add_followup''), (''task'', JStr ''ping recruiter'')]]
   \<and> \<not> truthy (dict_get ([t_due, t_noid, t_young] ! 0) ''synced'' (JBool False))
   \<and> ex_now \<le> ex_now + 1
   \<and> dispatched_command env_up (ex_now + 1) ([t_due, t_noid, t_young] ! 0)
       = Some (JObj [(''action'', JStr ''add_followup''), (''task'', JStr ''ping recruiter'')])"
proof -
  let ?fs = "one_file default_threads_path [t_due, t_noid, t_young]"
  let ?run = "run_sync env_up ex_now ?fs default_threads_path []"
  let ?cmd = "JObj [(''action'', JStr ''add_followup''), (''task'', JStr ''ping recruiter'')]"
  have h1: "?fs default_threads_path = Some ([t_due] @ t_noid # [t_young])"
    by (simp add: one_file_def)
  have h2: "due env_up ex_now t_noid" by code_simp
  have h3: "map_of t_noid ''thread_id'' = None" by code_simp
  have h4: "fst (sync_loop env_up ex_now 0 [t_due] False []) = None" by code_simp
  have h5: "calls_at 0 (added [] (snd (snd ?run))) = [?cmd]" by code_simp
  have h6: "ex_now \<le> ex_now + 1" by simp
  note T = missing_thread_id_aborts_pass
             [where fs = ?fs and path = default_threads_path and pre = "[t_due]" and t = t_noid
                and post = "[t_young]" and E = env_up and now = ex_now and w = "[]",
              OF h1 h2 h3]
  from T h4 have c1: "fst ?run = Inl (KeyError ''thread_id'')" by simp
  from T h1 have c2: "fst (snd ?run) default_threads_path = Some [t_due, t_noid, t_young]" by simp
  from h5 have ne: "calls_at 0 (added [] (snd (snd ?run))) \<noteq> []" by simp
  from T have "calls_at 0 (added [] (snd (snd ?run))) \<noteq> [] \<longrightarrow>
      (\<exists>ths c. fst (snd ?run) default_threads_path = Some ths \<and> 0 < length [t_due]
         \<and> calls_at 0 (added [] (snd (snd ?run))) = [c]
         \<and> \<not> truthy (dict_get (ths ! 0) ''synced'' (JBool False))
         \<and> (\<forall>now2. ex_now \<le> now2 \<longrightarrow> dispatched_command env_up now2 (ths ! 0) = Some c))"
    by blast
  with ne obtain ths c where
    d: "fst (snd ?run) default_threads_path = Some ths"
       "calls_at 0 (added [] (snd (snd ?run))) = [c]"
       "\<not> truthy (dict_get (ths ! 0) ''synced'' (JBool False))"
       "\<forall>now2. ex_now \<le> now2 \<longrightarrow> dispatched_command env_up now2 (ths ! 0) = Some c"
    by blast
  from d(1) c2 have ths: "ths = [t_due, t_noid, t_young]" by simp
  from d(2) h5 have c: "c = ?cmd" by simp
  from d(3) ths have c3: "\<not> truthy (dict_get ([t_due, t_noid, t_young] ! 0) ''synced'' (JBool False))"
    by simp
  from d(4) h6 ths c have c4:
    "dispatched_command env_up (ex_now + 1) ([t_due, t_noid, t_young] ! 0) = Some ?cmd"
    by blast
  from h1 h2 h3 h4 c1 c2 h5 c3 h6 c4 show ?thesis by (intro conjI)
qed

text \<open>
  C4 (as amended). A turn of the loop skips its entry, leaving it as it is (so not marked
  synced), not setting \<^verbatim>\<open>any_synced\<close>, and going on with the entries that follow, in each
  of these cases, with these log records and no others. The \<open>last_updated\<close> value does not
  parse: a warning \<open>Invalid last_updated\<close> with the exception. The entry is due and has a
  \<open>thread_id\<close>, so that \<open>eligible for sync\<close> is logged first, and: its content is a string
  with a character that is no space, which \<^verbatim>\<open>json.loads\<close> rejects (an error
  \<open>Failed to parse content JSON\<close>); or its content is missing, no string or blank, or it
  parses to a value that Python takes for false, such as \<open>{}\<close> or \<open>null\<close> (an info
  \<open>No valid command found\<close>, and no error); or it parses to a non-empty object whose action is
  none of the three known ones (\<open>process_thread_command\<close> is called once and raises
  \<open>Unknown action\<close>: an error \<open>Failed to process thread\<close>); or it parses to a value that
  Python takes for true and that is no object (the call raises \<open>AttributeError\<close>: an error
  \<open>Failed to process thread\<close>). The date parses and the entry is synced, or the date is
  zone-aware and less than two hours old: nothing is logged, whatever the content.
\<close>

theorem malformed_entry_skipped:
  "(last_updated_of E t = Inl e \<longrightarrow>
      skipped E now i t ts any_synced w
        [Log WARNING (Invalid_last_updated (dict_get t ''thread_id'' JNull) e)])
   \<and> (due E now t \<and> map_of t ''thread_id'' = Some tid \<and> parse_content E t = None \<longrightarrow>
        skipped E now i t ts any_synced w
          [Log INFO (Thread_eligible tid (dict_get t ''last_updated'' JNull)),
           Log ERROR (Failed_to_parse_content tid JSONDecodeError)])
   \<and> (due E now t \<and> map_of t ''thread_id'' = Some tid \<and> parse_content E t = Some cmd
        \<and> \<not> truthy cmd \<longrightarrow>
        skipped E now i t ts any_synced w
          [Log INFO (Thread_eligible tid (dict_get t ''last_updated'' JNull)),
           Log INFO (No_valid_command tid)])
   \<and> (due E now t \<and> map_of t ''thread_id'' = Some tid \<and> parse_content E t = Some (JObj d)
        \<and> d \<noteq> []
        \<and> dict_get d ''action'' JNull
             \<notin> {JStr ''create_application'', JStr ''add_followup'', JStr ''add_network_contact''}
        \<longrightarrow>
        skipped E now i t ts any_synced w
          [Log INFO (Thread_eligible tid (dict_get t ''last_updated'' JNull)),
           Call i (JObj d),
           Log ERROR (Failed_to_process_thread tid
                        (ValueError_unknown_action (dict_get d ''action'' JNull)))])
   \<and> (due E now t \<and> map_of t ''thread_id'' = Some tid \<and> parse_content E t = Some cmd
        \<and> truthy cmd \<and> \<not> is_dict cmd \<longrightarrow>
        skipped E now i t ts any_synced w
          [Log INFO (Thread_eligible tid (dict_get t ''last_updated'' JNull)),
           Call i cmd,
           Log ERROR (Failed_to_process_thread tid AttributeError)])
   \<and> (last_updated_of E t = Inr dt \<and> truthy (dict_get t ''synced'' (JBool False)) \<longrightarrow>
        skipped E now i t ts any_synced w [])
   \<and> (last_updated_of E t = Inr (Aware lu) \<and> now - lu < two_hours \<longrightarrow>
        skipped E now i t ts any_synced w [])"
proof -
  have go: "skipped E now i t ts any_synced w evs"
    if "sync_thread E now i t w = (Inr False, t, w @ evs)" for evs
    using that by (simp add: skipped_def split: prod.splits)
  show ?thesis
  proof (intro conjI impI)
    assume "last_updated_of E t = Inl e"
    then have "sync_thread E now i t w =
        (Inr False, t, w @ [Log WARNING (Invalid_last_updated (dict_get t ''thread_id'' JNull) e)])"
      by (simp add: sync_thread_def)
    then show "skipped E now i t ts any_synced w
        [Log WARNING (Invalid_last_updated (dict_get t ''thread_id'' JNull) e)]"
      by (rule go)
  next
    assume "due E now t \<and> map_of t ''thread_id'' = Some tid \<and> parse_content E t = None"
    then have "sync_thread E now i t w =
        (Inr False, t, w @ [Log INFO (Thread_eligible tid (dict_get t ''last_updated'' JNull)),
                            Log ERROR (Failed_to_parse_content tid JSONDecodeError)])"
      by (simp add: sync_thread_due)
    then show "skipped E now i t ts any_synced w
          [Log INFO (Thread_eligible tid (dict_get t ''last_updated'' JNull)),
           Log ERROR (Failed_to_parse_content tid JSONDecodeError)]"
      by (rule go)
  next
    assume "due E now t \<and> map_of t ''thread_id'' = Some tid \<and> parse_content E t = Some cmd
        \<and> \<not> truthy cmd"
    then have "sync_thread E now i t w =
        (Inr False, t, w @ [Log INFO (Thread_eligible tid (dict_get t ''last_updated'' JNull)),
                            Log INFO (No_valid_command tid)])"
      by (simp add: sync_thread_due)
    then show "skipped E now i t ts any_synced w
          [Log INFO (Thread_eligible tid (dict_get t ''last_updated'' JNull)),
           Log INFO (No_valid_command tid)]"
      by (rule go)
  next
    assume a: "due E now t \<and> map_of t ''thread_id'' = Some tid \<and> parse_content E t = Some (JObj d)
        \<and> d \<noteq> []
        \<and> dict_get d ''action'' JNull
             \<notin> {JStr ''create_application'', JStr ''add_followup'', JStr ''add_network_contact''}"
    then have "process_thread_command E (JObj d) w0 =
                 (Inl (ValueError_unknown_action (dict_get d ''action'' JNull)), w0)" for w0
      by (simp add: process_thread_command_def Let_def)
    with a have "sync_thread E now i t w =
        (Inr False, t, w @ [Log INFO (Thread_eligible tid (dict_get t ''last_updated'' JNull)),
                            Call i (JObj d),
                            Log ERROR (Failed_to_process_thread tid
                                         (ValueError_unknown_action (dict_get d ''action'' JNull)))])"
      by (simp add: sync_thread_due)
    then show "skipped E now i t ts any_synced w
          [Log INFO (Thread_eligible tid (dict_get t ''last_updated'' JNull)),
           Call i (JObj d),
           Log ERROR (Failed_to_process_thread tid
                        (ValueError_unknown_action (dict_get d ''action'' JNull)))]"
      by (rule go)
  next
    assume a: "due E now t \<and> map_of t ''thread_id'' = Some tid \<and> parse_content E t = Some cmd
        \<and> truthy cmd \<and> \<not> is_dict cmd"
    then have "process_thread_command E cmd w0 = (Inl AttributeError, w0)" for w0
      by (cases cmd) (simp_all add: process_thread_command_def)
    with a have "sync_thread E now i t w =
        (Inr False, t, w @ [Log INFO (Thread_eligible tid (dict_get t ''last_updated'' JNull)),
                            Call i cmd,
                            Log ERROR (Failed_to_process_thread tid AttributeError)])"
      by (simp add: sync_thread_due)
    then show "skipped E now i t ts any_synced w
          [Log INFO (Thread_eligible tid (dict_get t ''last_updated'' JNull)),
           Call i cmd,
           Log ERROR (Failed_to_process_thread tid AttributeError)]"
      by (rule go)
  next
    assume "last_updated_of E t = Inr dt \<and> truthy (dict_get t ''synced'' (JBool False))"
    then have "sync_thread E now i t w = (Inr False, t, w @ [])"
      by (simp add: sync_thread_def)
    then show "skipped E now i t ts any_synced w []"
      by (rule go)
  next
    assume "last_updated_of E t = Inr (Aware lu) \<and> now - lu < two_hours"
    then have "sync_thread E now i t w = (Inr False, t, w @ [])"
      by (simp add: sync_thread_def Let_def)
    then show "skipped E now i t ts any_synced w []"
      by (rule go)
  qed
qed

theorem malformed_entry_skipped_witness:
  "last_updated_of env_up t_badts = Inl ValueError_isoformat
   \<and> skipped env_up ex_now 0 t_badts [t_due] False []
        [Log WARNING (Invalid_last_updated (dict_get t_badts ''thread_id'' JNull)
                        ValueError_isoformat)]
   \<and> due env_up ex_now t_badjson \<and> map_of t_badjson ''thread_id'' = Some (JStr ''t4'')
   \<and> parse_content env_up t_badjson = None
   \<and> skipped env_up ex_now 0 t_badjson [t_due] False []
        [Log INFO (Thread_eligible (JStr ''t4'') (dict_get t_badjson ''last_updated'' JNull)),
         Log ERROR (Failed_to_parse_content (JStr ''t4'') JSONDecodeError)]
   \<and> due env_up ex_now t_blank \<and> map_of t_blank ''thread_id'' = Some (JStr ''t10'')
   \<and> parse_content env_up t_blank = Some (JObj [])
   \<and> \<not> truthy (JObj [])
   \<and> skipped env_up ex_now 0 t_blank [t_due] False []
        [Log INFO (Thread_eligible (JStr ''t10'') (dict_get t_blank ''last_updated'' JNull)),
         Log INFO (No_valid_command (JStr ''t10''))]
   \<and> due env_up ex_now t_unknown \<and> map_of t_unknown ''thread_id'' = Some (JStr ''t6'')
   \<and> parse_content env_up t_unknown = Some (JObj [(''action'', JStr ''archive'')])
   \<and> dict_get [(''action'', JStr ''archive'')] ''action'' JNull
        \<notin> {JStr ''create_application'', JStr ''add_followup'', JStr ''add_network_contact''}
   \<and> skipped env_up ex_now 0 t_unknown [t_due] False []
        [Log INFO (Thread_eligible (JStr ''t6'') (dict_get t_unknown ''last_updated'' JNull)),
         Call 0 (JObj [(''action'', JStr ''archive'')]),
         Log ERROR (Failed_to_process_thread (JStr ''t6'')
                      (ValueError_unknown_action
                         (dict_get [(''action'', JStr ''archive'')] ''action'' JNull)))]
   \<and> due env_up ex_now t_list \<and> map_of t_list ''thread_id'' = Some (JStr ''t11'')
   \<and> parse_content env_up t_list = Some (JArr [JNum 1])
   \<and> truthy (JArr [JNum 1]) \<and> \<not> is_dict (JArr [JNum 1])
   \<and> skipped env_up ex_now 0 t_list [t_due] False []
        [Log INFO (Thread_eligible (JStr ''t11'') (dict_get t_list ''last_updated'' JNull)),
         Call 0 (JArr [JNum 1]),
         Log ERROR (Failed_to_process_thread (JStr ''t11'') AttributeError)]
   \<and> last_updated_of env_up t_done = Inr (Aware 0)
   \<and> truthy (dict_get t_done ''synced'' (JBool False))
   \<and> skipped env_up ex_now 0 t_done [t_due] False [] []
   \<and> last_updated_of env_up t_young = Inr (Aware 7200000000)
   \<and> ex_now - 7200000000 < two_hours
   \<and> skipped env_up ex_now 0 t_young [t_due] False [] []"
proof -
  have a1: "last_updated_of env_up t_badts = Inl ValueError_isoformat" by code_simp
  have b1: "due env_up ex_now t_badjson" by code_simp
  have b2: "map_of t_badjson ''thread_id'' = Some (JStr ''t4'')" by code_simp
  have b3: "parse_content env_up t_badjson = None" by code_simp
  have n1: "due env_up ex_now t_blank" by code_simp
  have n2: "map_of t_blank ''thread_id'' = Some (JStr ''t10'')" by code_simp
  have n3: "parse_content env_up t_blank = Some (JObj [])" by code_simp
  have n4: "\<not> truthy (JObj [])" by simp
  have c1: "due env_up ex_now t_unknown" by code_simp
  have c2: "map_of t_unknown ''thread_id'' = Some (JStr ''t6'')" by code_simp
  have c3: "parse_content env_up t_unknown = Some (JObj [(''action'', JStr ''archive'')])"
    by code_simp
  have c4: "[(''action'', JStr ''archive'')] \<noteq> []" by simp
  have c5: "dict_get [(''action'', JStr ''archive'')] ''action'' JNull
        \<notin> {JStr ''create_application'', JStr ''add_followup'', JStr ''add_network_contact''}"
    by (simp add: dict_get_def)
  have l1: "due env_up ex_now t_list" by code_simp
  have l2: "map_of t_list ''thread_id'' = Some (JStr ''t11'')" by code_simp
  have l3: "parse_content env_up t_list = Some (JArr [JNum 1])" by code_simp
  have l4: "truthy (JArr [JNum 1])" by simp
  have l5: "\<not> is_dict (JArr [JNum 1])" by simp
  have s1: "last_updated_of env_up t_done = Inr (Aware 0)" by code_simp
  have s2: "truthy (dict_get t_done ''synced'' (JBool False))" by code_simp
  have y1: "last_updated_of env_up t_young = Inr (Aware 7200000000)" by code_simp
  have y2: "ex_now - 7200000000 < two_hours" by code_simp
  note A = malformed_entry_skipped
             [where E = env_up and t = t_badts and e = ValueError_isoformat and now = ex_now
                and i = 0 and ts = "[t_due]" and any_synced = False and w = "[]",
              THEN conjunct1, THEN mp, OF a1]
  note B = malformed_entry_skipped
             [where E = env_up and t = t_badjson and tid = "JStr ''t4''" and now = ex_now
                and i = 0 and ts = "[t_due]" and any_synced = False and w = "[]",
              THEN conjunct2, THEN conjunct1, THEN mp, OF conjI [OF b1 conjI [OF b2 b3]]]
  note N = malformed_entry_skipped
             [where E = env_up and t = t_blank and tid = "JStr ''t10''" and now = ex_now
                and cmd = "JObj []"
                and i = 0 and ts = "[t_due]" and any_synced = False and w = "[]",
              THEN conjunct2, THEN conjunct2, THEN conjunct1, THEN mp,
              OF conjI [OF n1 conjI [OF n2 conjI [OF n3 n4]]]]
  note C = malformed_entry_skipped
             [where E = env_up and t = t_unknown and tid = "JStr ''t6''" and now = ex_now
                and d = "[(''action'', JStr ''archive'')]"
                and i = 0 and ts = "[t_due]" and any_synced = False and w = "[]",
              THEN conjunct2, THEN conjunct2, THEN conjunct2, THEN conjunct1, THEN mp,
              OF conjI [OF c1 conjI [OF c2 conjI [OF c3 conjI [OF c4 c5]]]]]
  note L = malformed_entry_skipped
             [where E = env_up and t = t_list and tid = "JStr ''t11''" and now = ex_now
                and cmd = "JArr [JNum 1]"
                and i = 0 and ts = "[t_due]" and any_synced = False and w = "[]",
              THEN conjunct2, THEN conjunct2, THEN conjunct2, THEN conjunct2, THEN conjunct1,
              THEN mp, OF conjI [OF l1 conjI [OF l2 conjI [OF l3 conjI [OF l4 l5]]]]]
  note S = malformed_entry_skipped
             [where E = env_up and t = t_done and dt = "Aware 0" and now = ex_now
                and i = 0 and ts = "[t_due]" and any_synced = False and w = "[]",
              THEN conjunct2, THEN conjunct2, THEN conjunct2, THEN conjunct2, THEN conjunct2,
              THEN conjunct1, THEN mp, OF conjI [OF s1 s2]]
  note Y = malformed_entry_skipped
             [where E = env_up and t = t_young and lu = 7200000000 and now = ex_now
                and i = 0 and ts = "[t_due]" and any_synced = False and w = "[]",
              THEN conjunct2, THEN conjunct2, THEN conjunct2, THEN conjunct2, THEN conjunct2,
              THEN conjunct2, THEN mp, OF conjI [OF y1 y2]]
  from a1 A b1 b2 b3 B n1 n2 n3 n4 N c1 c2 c3 c5 C l1 l2 l3 l4 l5 L s1 s2 S y1 y2 Y
  show ?thesis by (intro conjI)
qed

theorem malformed_entry_skipped_counterexample:
  "parse_content env_up t_young_badjson = None
   \<and> fst (run_sync env_up ex_now (one_file default_threads_path [t_young_badjson])
             default_threads_path []) = Inr ()
   \<and> snd (snd (run_sync env_up ex_now (one_file default_threads_path [t_young_badjson])
                  default_threads_path [])) = [Log INFO No_threads_synced]"
  by code_simp

text \<open>
  C3. \<open>run_sync\<close> is to rewrite the queue file exactly when an entry went from unsynced to
  synced. Here the pass is run on the queue file \<open>queue.json\<close>, which holds one due entry, on
  a network that accepts every request: the pass ends normally, the entry is dispatched and
  marked synced in memory, the file \<open>queue.json\<close> still holds the entry with \<open>synced\<close>
  \<open>False\<close>, and the updated list is in \<open>project_threads.json\<close>, the default path of
  \<open>write_project_threads\<close>.
\<close>

theorem queue_file_not_rewritten:
  "fst (run_sync env_up ex_now (one_file ''queue.json'' [t_due]) ''queue.json'' []) = Inr ()
   \<and> calls_at 0 (snd (snd (run_sync env_up ex_now (one_file ''queue.json'' [t_due])
                              ''queue.json'' [])))
       = [JObj [(''action'', JStr ''add_followup''), (''task'', JStr ''ping recruiter'')]]
   \<and> fst (snd (run_sync env_up ex_now (one_file ''queue.json'' [t_due]) ''queue.json'' []))
        ''queue.json'' = Some [t_due]
   \<and> fst (snd (run_sync env_up ex_now (one_file ''queue.json'' [t_due]) ''queue.json'' []))
        ''project_threads.json'' = Some [dict_set t_due ''synced'' (JBool True)]
   \<and> dict_get t_due ''synced'' (JBool False) = JBool False
   \<and> dict_get (dict_set t_due ''synced'' (JBool True)) ''synced'' (JBool False) = JBool True"
  by code_simp

section \<open>Bulk import\<close>

text \<open>
  C8. Bulk import is to invoke the matching operation once for each row, a missing column
  being replaced by its default. Here the follow-ups file \<open>tasks.csv\<close> has the header
  \<open>Task,Completed\<close> and one line that holds a task and nothing more, so that
  \<^verbatim>\<open>csv.DictReader\<close> yields \<open>None\<close> for \<open>Completed\<close>, and the network accepts every request.
  \<^verbatim>\<open>row.get("Completed","False")\<close> is then \<open>None\<close> and not the default, \<^verbatim>\<open>.lower()\<close> raises
  \<open>AttributeError\<close> inside the \<^verbatim>\<open>try\<close>, and the row is logged as failed: \<open>add_followup\<close> is
  not called, no request is sent, and the count reported is 0. The same line under a header
  that has no \<open>Completed\<close> column does get the default: the operation is called once, one
  request is sent, with \<open>Completed\<close> unchecked, and the count reported is 1.
\<close>

theorem prefill_from_csv_short_row:
  "dict_get short_row ''Completed'' (JStr ''False'') = JNull
   \<and> prefill_from_csv env_up (one_csv ''tasks.csv'' [short_row]) ''tasks.csv'' ''followups'' []
       = (Inr (), [Log ERROR (Failed_to_insert_row short_row AttributeError),
                   Log INFO (Prefilled 0 ''followups'')])
   \<and> dict_get task_row ''Completed'' (JStr ''False'') = JStr ''False''
   \<and> fst (prefill_from_csv env_up (one_csv ''tasks.csv'' [task_row]) ''tasks.csv''
             ''followups'' []) = Inr ()
   \<and> length (requests_of (snd (prefill_from_csv env_up (one_csv ''tasks.csv'' [task_row])
                                  ''tasks.csv'' ''followups'' []))) = 1
   \<and> payload_property
         (hd (requests_of (snd (prefill_from_csv env_up (one_csv ''tasks.csv'' [task_row])
                                  ''tasks.csv'' ''followups'' [])))) ''Completed''
       = Some (checkbox_prop (JBool False))
   \<and> last (snd (prefill_from_csv env_up (one_csv ''tasks.csv'' [task_row]) ''tasks.csv''
                   ''followups'' []))
       = Log INFO (Prefilled 1 ''followups'')"
  by code_simp

end
